theory Spec2Isabelle
  imports Complex_Main
begin

unbundle bit_operations_syntax

section \<open>Hex grid utilities: data model\<close>

text \<open>
  The hex-grid core of \<^verbatim>\<open>hexgrid_utils.py\<close>. Python's unbounded integers are
  \<^typ>\<open>int\<close>; a cube hex is the triple \<open>(q, r, s)\<close>, an axial or offset hex a pair.
  Floor division \<^verbatim>\<open>//\<close> is \<open>div\<close> on \<^typ>\<open>int\<close>, \<^verbatim>\<open>&\<close> is \<open>AND\<close>.
\<close>

type_synonym cube_hex = "int \<times> int \<times> int"
type_synonym axial_hex = "int \<times> int"
type_synonym offset_hex = "int \<times> int"

datatype error = ValueError | ZeroDivisionError | OverflowError | KeyError

definition zero_sum :: "cube_hex \<Rightarrow> bool" where
  "zero_sum h = (case h of (q, r, s) \<Rightarrow> q + r + s = 0)"

definition CUBE_DIRECTIONS :: "cube_hex list" where
  "CUBE_DIRECTIONS =
     [(1, 0, -1), (1, -1, 0), (0, -1, 1), (-1, 0, 1), (-1, 1, 0), (0, 1, -1)]"

subsection \<open>Coordinate conversions\<close>

fun axial_to_cube :: "axial_hex \<Rightarrow> cube_hex" where
  "axial_to_cube (q, r) = (q, r, - q - r)"

fun cube_to_axial :: "cube_hex \<Rightarrow> axial_hex" where
  "cube_to_axial (q, r, s) = (q, r)"

fun cube_to_oddr :: "cube_hex \<Rightarrow> offset_hex" where
  "cube_to_oddr (q, r, s) = (q + (r - (r AND 1)) div 2, r)"

fun oddr_to_cube :: "offset_hex \<Rightarrow> cube_hex" where
  "oddr_to_cube (col, row) =
     (let q = col - (row - (row AND 1)) div 2; r = row in (q, r, - q - r))"

fun cube_to_evenr :: "cube_hex \<Rightarrow> offset_hex" where
  "cube_to_evenr (q, r, s) = (q + (r + (r AND 1)) div 2, r)"

fun evenr_to_cube :: "offset_hex \<Rightarrow> cube_hex" where
  "evenr_to_cube (col, row) =
     (let q = col - (row + (row AND 1)) div 2; r = row in (q, r, - q - r))"

fun cube_to_oddq :: "cube_hex \<Rightarrow> offset_hex" where
  "cube_to_oddq (q, r, s) = (q, r + (q - (q AND 1)) div 2)"

fun oddq_to_cube :: "offset_hex \<Rightarrow> cube_hex" where
  "oddq_to_cube (col, row) =
     (let q = col; r = row - (col - (col AND 1)) div 2 in (q, r, - q - r))"

fun cube_to_evenq :: "cube_hex \<Rightarrow> offset_hex" where
  "cube_to_evenq (q, r, s) = (q, r + (q + (q AND 1)) div 2)"

fun evenq_to_cube :: "offset_hex \<Rightarrow> cube_hex" where
  "evenq_to_cube (col, row) =
     (let q = col; r = row - (col + (col AND 1)) div 2 in (q, r, - q - r))"

subsection \<open>Hex arithmetic\<close>

fun cube_add :: "cube_hex \<Rightarrow> cube_hex \<Rightarrow> cube_hex" where
  "cube_add (a0, a1, a2) (b0, b1, b2) = (a0 + b0, a1 + b1, a2 + b2)"

fun cube_subtract :: "cube_hex \<Rightarrow> cube_hex \<Rightarrow> cube_hex" where
  "cube_subtract (a0, a1, a2) (b0, b1, b2) = (a0 - b0, a1 - b1, a2 - b2)"

fun cube_scale :: "cube_hex \<Rightarrow> int \<Rightarrow> cube_hex" where
  "cube_scale (h0, h1, h2) k = (h0 * k, h1 * k, h2 * k)"

fun cube_rotate_left :: "cube_hex \<Rightarrow> cube_hex" where
  "cube_rotate_left (q, r, s) = (- s, - q, - r)"

fun cube_rotate_right :: "cube_hex \<Rightarrow> cube_hex" where
  "cube_rotate_right (q, r, s) = (- r, - s, - q)"

subsection \<open>Distance and neighbours\<close>

fun cube_distance :: "cube_hex \<Rightarrow> cube_hex \<Rightarrow> int" where
  "cube_distance (a0, a1, a2) (b0, b1, b2) =
     (\<bar>a0 - b0\<bar> + \<bar>a1 - b1\<bar> + \<bar>a2 - b2\<bar>) div 2"

text \<open>
  \<^verbatim>\<open>CUBE_DIRECTIONS[direction % 6]\<close>: Python's \<^verbatim>\<open>%\<close> with a positive modulus is
  never negative, as \<open>mod\<close> on \<^typ>\<open>int\<close>, so the index is always in range.
\<close>

definition cube_neighbor :: "cube_hex \<Rightarrow> int \<Rightarrow> cube_hex" where
  "cube_neighbor h direction = cube_add h (CUBE_DIRECTIONS ! nat (direction mod 6))"

definition cube_neighbors :: "cube_hex \<Rightarrow> cube_hex list" where
  "cube_neighbors h = map (cube_neighbor h) [0..5]"

subsection \<open>Map generation\<close>

text \<open>
  \<^verbatim>\<open>generate_rectangular_map(width, height, offset_type)\<close>: two nested loops over
  \<^verbatim>\<open>range(width)\<close> and \<^verbatim>\<open>range(height)\<close>; the parameter \<^verbatim>\<open>offset_type\<close> is never read.
  The result is a sum so that it can be compared with the operations that raise.
\<close>

definition generate_rectangular_map ::
  "int \<Rightarrow> int \<Rightarrow> string \<Rightarrow> error + offset_hex set" where
  "generate_rectangular_map width height offset_type =
     Inr (fold (\<lambda>col hexes. fold (\<lambda>row hexes. insert (col, row) hexes) [0..height - 1] hexes)
            [0..width - 1] {})"

subsection \<open>Rings and spirals\<close>

text \<open>
  \<^verbatim>\<open>cube_ring\<close>: the inner loop \<^verbatim>\<open>for j in range(radius)\<close> appends the current hex and
  steps to its neighbour in direction \<open>i\<close>; the outer loop runs it for \<open>i = 0..5\<close>. The
  loop state is the pair of the current hex and the results so far. A negative radius
  makes \<^verbatim>\<open>range(radius)\<close> empty.
\<close>

primrec ring_side :: "int \<Rightarrow> nat \<Rightarrow> cube_hex \<times> cube_hex list \<Rightarrow> cube_hex \<times> cube_hex list" where
  "ring_side i 0 st = st"
| "ring_side i (Suc j) st = ring_side i j (cube_neighbor (fst st) i, snd st @ [fst st])"

definition cube_ring :: "cube_hex \<Rightarrow> int \<Rightarrow> cube_hex list" where
  "cube_ring center radius =
     (if radius = 0 then [center]
      else snd (fold (\<lambda>i st. ring_side i (nat radius) st) [0..5]
                  (cube_add center (cube_scale (CUBE_DIRECTIONS ! 4) radius), [])))"

definition cube_spiral :: "cube_hex \<Rightarrow> int \<Rightarrow> cube_hex list" where
  "cube_spiral center radius =
     fold (\<lambda>k results. results @ cube_ring center k) [1..radius] [center]"

subsection \<open>Python numbers\<close>

text \<open>
  The line and pixel code mixes Python \<^verbatim>\<open>int\<close> and \<^verbatim>\<open>float\<close>. A finite float is an
  IEEE 754 binary64 value, modelled by the rational it denotes; \<open>fl\<close> rounds a rational to
  the nearest binary64 value (53 significant bits, ties to the even mantissa, the quantum
  never below \<^verbatim>\<open>2 ** -1074\<close>), and every float operation is the exact operation followed
  by \<open>fl\<close>. A result of magnitude \<^verbatim>\<open>2 ** 1024\<close> or more is an infinity. The sign of a zero is
  not kept: no operation used here can observe it.
\<close>

function bitlen :: "int \<Rightarrow> int" where
  "bitlen n = (if n \<le> 0 then 0 else 1 + bitlen (n div 2))"
  by pat_completeness auto
termination
  by (relation "measure nat") auto

declare bitlen.simps [simp del]

definition pow2 :: "int \<Rightarrow> rat" where
  "pow2 e = (if 0 \<le> e then 2 ^ nat e else 1 / 2 ^ nat (- e))"

definition floor_log2 :: "rat \<Rightarrow> int" where
  "floor_log2 x = (if 1 \<le> x then bitlen \<lfloor>x\<rfloor> - 1 else - bitlen (\<lceil>1 / x\<rceil> - 1))"

definition round_half_even :: "rat \<Rightarrow> int" where
  "round_half_even x = (let f = \<lfloor>x\<rfloor>; d = x - of_int f in
      if d < 1 / 2 then f else if 1 / 2 < d then f + 1 else if even f then f else f + 1)"

definition fl :: "rat \<Rightarrow> rat" where
  "fl x = (if x = 0 then 0 else
      let e = max (floor_log2 \<bar>x\<bar>) (- 1022); quantum = pow2 (e - 52)
      in of_int (round_half_even (x / quantum)) * quantum)"

text \<open>
  A Python number is an \<^verbatim>\<open>int\<close> or a \<^verbatim>\<open>float\<close>. Arithmetic on two ints is exact; as soon
  as one operand is a float the other is converted (\<^verbatim>\<open>OverflowError\<close> when the int is too
  large) and the operation is the float one. Float operations never raise on overflow,
  they return an infinity or a NaN; \<^verbatim>\<open>round\<close> raises on those, and \<^verbatim>\<open>/\<close> raises
  \<^verbatim>\<open>ZeroDivisionError\<close> on a zero divisor.
\<close>

datatype pyfloat = Finite rat | PosInf | NegInf | NaN

datatype pynum = PyInt int | PyFloat pyfloat

definition to_float :: "rat \<Rightarrow> pyfloat" where
  "to_float x = (let y = fl x in
      if 2 ^ 1024 \<le> y then PosInf else if y \<le> - (2 ^ 1024) then NegInf else Finite y)"

definition float_of_int :: "int \<Rightarrow> error + pyfloat" where
  "float_of_int i =
     (case to_float (of_int i) of Finite y \<Rightarrow> Inr (Finite y) | _ \<Rightarrow> Inl OverflowError)"

fun as_float :: "pynum \<Rightarrow> error + pyfloat" where
  "as_float (PyInt i) = float_of_int i"
| "as_float (PyFloat x) = Inr x"

fun float_neg :: "pyfloat \<Rightarrow> pyfloat" where
  "float_neg (Finite x) = Finite (- x)"
| "float_neg PosInf = NegInf"
| "float_neg NegInf = PosInf"
| "float_neg NaN = NaN"

fun float_add :: "pyfloat \<Rightarrow> pyfloat \<Rightarrow> pyfloat" where
  "float_add (Finite x) (Finite y) = to_float (x + y)"
| "float_add NaN y = NaN"
| "float_add x NaN = NaN"
| "float_add PosInf NegInf = NaN"
| "float_add NegInf PosInf = NaN"
| "float_add PosInf y = PosInf"
| "float_add x PosInf = PosInf"
| "float_add NegInf y = NegInf"
| "float_add x NegInf = NegInf"

definition float_sub :: "pyfloat \<Rightarrow> pyfloat \<Rightarrow> pyfloat" where
  "float_sub x y = float_add x (float_neg y)"

fun float_sign :: "pyfloat \<Rightarrow> int" where
  "float_sign (Finite x) = (if x = 0 then 0 else if 0 < x then 1 else - 1)"
| "float_sign PosInf = 1"
| "float_sign NegInf = - 1"
| "float_sign NaN = 0"

definition signed_inf :: "int \<Rightarrow> pyfloat" where
  "signed_inf k = (if k = 0 then NaN else if 0 < k then PosInf else NegInf)"

fun float_mul :: "pyfloat \<Rightarrow> pyfloat \<Rightarrow> pyfloat" where
  "float_mul (Finite x) (Finite y) = to_float (x * y)"
| "float_mul NaN y = NaN"
| "float_mul x NaN = NaN"
| "float_mul x y = signed_inf (float_sign x * float_sign y)"

fun float_div :: "pyfloat \<Rightarrow> pyfloat \<Rightarrow> error + pyfloat" where
  "float_div x (Finite y) =
     (if y = 0 then Inl ZeroDivisionError
      else Inr (case x of Finite u \<Rightarrow> to_float (u / y)
                | NaN \<Rightarrow> NaN
                | _ \<Rightarrow> signed_inf (float_sign x * float_sign (Finite y))))"
| "float_div NaN y = Inr NaN"
| "float_div x NaN = Inr NaN"
| "float_div (Finite u) y = Inr (Finite 0)"
| "float_div x y = Inr NaN"

fun float_gt :: "pyfloat \<Rightarrow> pyfloat \<Rightarrow> bool" where
  "float_gt (Finite x) (Finite y) = (y < x)"
| "float_gt NaN y = False"
| "float_gt x NaN = False"
| "float_gt PosInf y = (y \<noteq> PosInf)"
| "float_gt x PosInf = False"
| "float_gt x NegInf = (x \<noteq> NegInf)"
| "float_gt NegInf y = False"

text \<open>Sequencing of computations that may raise: the first error wins.\<close>

definition bind :: "error + 'a \<Rightarrow> ('a \<Rightarrow> error + 'b) \<Rightarrow> error + 'b" where
  "bind m f = (case m of Inl e \<Rightarrow> Inl e | Inr x \<Rightarrow> f x)"

definition float_op :: "(pyfloat \<Rightarrow> pyfloat \<Rightarrow> pyfloat) \<Rightarrow> pynum \<Rightarrow> pynum \<Rightarrow> error + pynum" where
  "float_op f a b = bind (as_float a) (\<lambda>x. bind (as_float b) (\<lambda>y. Inr (PyFloat (f x y))))"

fun num_add :: "pynum \<Rightarrow> pynum \<Rightarrow> error + pynum" where
  "num_add (PyInt i) (PyInt j) = Inr (PyInt (i + j))"
| "num_add a b = float_op float_add a b"

fun num_sub :: "pynum \<Rightarrow> pynum \<Rightarrow> error + pynum" where
  "num_sub (PyInt i) (PyInt j) = Inr (PyInt (i - j))"
| "num_sub a b = float_op float_sub a b"

fun num_mul :: "pynum \<Rightarrow> pynum \<Rightarrow> error + pynum" where
  "num_mul (PyInt i) (PyInt j) = Inr (PyInt (i * j))"
| "num_mul a b = float_op float_mul a b"

fun num_div :: "pynum \<Rightarrow> pynum \<Rightarrow> error + pynum" where
  "num_div (PyInt i) (PyInt j) =
     (if j = 0 then Inl ZeroDivisionError
      else case to_float (of_int i / of_int j) of
             Finite y \<Rightarrow> Inr (PyFloat (Finite y)) | _ \<Rightarrow> Inl OverflowError)"
| "num_div a b =
     bind (as_float a) (\<lambda>x. bind (as_float b) (\<lambda>y. bind (float_div x y) (\<lambda>z. Inr (PyFloat z))))"

fun num_neg :: "pynum \<Rightarrow> pynum" where
  "num_neg (PyInt i) = PyInt (- i)"
| "num_neg (PyFloat x) = PyFloat (float_neg x)"

fun num_abs :: "pynum \<Rightarrow> pynum" where
  "num_abs (PyInt i) = PyInt \<bar>i\<bar>"
| "num_abs (PyFloat x) = PyFloat (if float_sign x < 0 then float_neg x else x)"

text \<open>Comparisons between an int and a float compare the exact values.\<close>

fun exact_float :: "pynum \<Rightarrow> pyfloat" where
  "exact_float (PyInt i) = Finite (of_int i)"
| "exact_float (PyFloat x) = x"

definition num_gt :: "pynum \<Rightarrow> pynum \<Rightarrow> bool" where
  "num_gt a b = float_gt (exact_float a) (exact_float b)"

text \<open>\<^verbatim>\<open>round(x)\<close> with one argument: an int, ties to the even integer.\<close>

fun num_round :: "pynum \<Rightarrow> error + int" where
  "num_round (PyInt i) = Inr i"
| "num_round (PyFloat (Finite x)) = Inr (round_half_even x)"
| "num_round (PyFloat NaN) = Inl ValueError"
| "num_round (PyFloat x) = Inl OverflowError"

text \<open>A float literal such as \<^verbatim>\<open>1e-6\<close> denotes the binary64 value nearest to it.\<close>

definition float_literal :: "rat \<Rightarrow> pynum" where
  "float_literal x = PyFloat (Finite (fl x))"

subsection \<open>Line drawing\<close>

text \<open>
  \<^verbatim>\<open>cube_lerp\<close> returns \<^verbatim>\<open>round(a[k] + (b[k] - a[k]) * t)\<close> for each component, so its
  result is already a triple of ints. \<^verbatim>\<open>cube_round\<close> takes any triple of numbers: ints
  from \<^verbatim>\<open>cube_line\<close>, floats from \<^verbatim>\<open>pixel_to_hex\<close>. In \<^verbatim>\<open>cube_line\<close> the two nudged
  endpoints are computed first, then the loop over \<^verbatim>\<open>range(N + 1)\<close> computes
  \<^verbatim>\<open>t = 1.0 / N * i\<close> and appends \<^verbatim>\<open>cube_round(cube_lerp(a_nudge, b_nudge, t))\<close>.
\<close>

type_synonym num3 = "pynum \<times> pynum \<times> pynum"

fun cube_lerp :: "num3 \<Rightarrow> num3 \<Rightarrow> pynum \<Rightarrow> error + cube_hex" where
  "cube_lerp (a0, a1, a2) (b0, b1, b2) t =
     bind (bind (bind (bind (num_sub b0 a0) (\<lambda>d. num_mul d t)) (num_add a0)) num_round) (\<lambda>q.
     bind (bind (bind (bind (num_sub b1 a1) (\<lambda>d. num_mul d t)) (num_add a1)) num_round) (\<lambda>r.
     bind (bind (bind (bind (num_sub b2 a2) (\<lambda>d. num_mul d t)) (num_add a2)) num_round) (\<lambda>s.
     Inr (q, r, s))))"

fun cube_round :: "num3 \<Rightarrow> error + cube_hex" where
  "cube_round (f0, f1, f2) =
     bind (num_round f0) (\<lambda>q. bind (num_round f1) (\<lambda>r. bind (num_round f2) (\<lambda>s.
     bind (num_sub (PyInt q) f0) (\<lambda>dq. bind (num_sub (PyInt r) f1) (\<lambda>dr.
     bind (num_sub (PyInt s) f2) (\<lambda>ds.
       let q_diff = num_abs dq; r_diff = num_abs dr; s_diff = num_abs ds in
       if num_gt q_diff r_diff \<and> num_gt q_diff s_diff then Inr (- r - s, r, s)
       else if num_gt r_diff s_diff then Inr (q, - q - s, s)
       else Inr (q, r, - q - r)))))))"

fun nudge :: "cube_hex \<Rightarrow> error + num3" where
  "nudge (h0, h1, h2) =
     bind (num_add (PyInt h0) (float_literal (1 / 1000000))) (\<lambda>n0.
     bind (num_add (PyInt h1) (float_literal (1 / 1000000))) (\<lambda>n1.
     bind (num_sub (PyInt h2) (float_literal (2 / 1000000))) (\<lambda>n2.
     Inr (n0, n1, n2))))"

definition line_sample :: "num3 \<Rightarrow> num3 \<Rightarrow> int \<Rightarrow> int \<Rightarrow> error + cube_hex" where
  "line_sample a_nudge b_nudge N i =
     bind (bind (num_div (float_literal 1) (PyInt N)) (\<lambda>u. num_mul u (PyInt i))) (\<lambda>t.
     bind (cube_lerp a_nudge b_nudge t) (\<lambda>(q, r, s).
     cube_round (PyInt q, PyInt r, PyInt s)))"

fun line_loop :: "num3 \<Rightarrow> num3 \<Rightarrow> int \<Rightarrow> int list \<Rightarrow> cube_hex list \<Rightarrow> error + cube_hex list" where
  "line_loop a_nudge b_nudge N [] results = Inr results"
| "line_loop a_nudge b_nudge N (i # is) results =
     bind (line_sample a_nudge b_nudge N i) (\<lambda>h.
     line_loop a_nudge b_nudge N is (results @ [h]))"

definition cube_line :: "cube_hex \<Rightarrow> cube_hex \<Rightarrow> error + cube_hex list" where
  "cube_line a b =
     (let N = cube_distance a b in
      bind (nudge a) (\<lambda>a_nudge. bind (nudge b) (\<lambda>b_nudge.
      line_loop a_nudge b_nudge N [0..N] [])))"

subsection \<open>Field of view\<close>

text \<open>
  \<^verbatim>\<open>cube_visible\<close>: for every hex of every ring \<open>1..radius\<close> the line from the centre is
  computed in full, then scanned from its first sample; the scan stops at the first hex
  that is an obstacle or lies farther than \<open>radius\<close> from the centre.
\<close>

fun fold_err :: "('a \<Rightarrow> 's \<Rightarrow> error + 's) \<Rightarrow> 'a list \<Rightarrow> 's \<Rightarrow> error + 's" where
  "fold_err f [] s = Inr s"
| "fold_err f (x # xs) s = bind (f x s) (fold_err f xs)"

fun line_blocked :: "cube_hex \<Rightarrow> int \<Rightarrow> cube_hex set \<Rightarrow> cube_hex list \<Rightarrow> bool" where
  "line_blocked center radius obstacles [] = False"
| "line_blocked center radius obstacles (h # line) =
     (if h \<in> obstacles then True
      else if radius < cube_distance center h then True
      else line_blocked center radius obstacles line)"

definition visible_step ::
  "cube_hex \<Rightarrow> int \<Rightarrow> cube_hex set \<Rightarrow> cube_hex \<Rightarrow> cube_hex set \<Rightarrow> error + cube_hex set" where
  "visible_step center radius obstacles hex visible =
     bind (cube_line center hex) (\<lambda>line.
       Inr (if \<not> line_blocked center radius obstacles line then insert hex visible else visible))"

definition cube_visible :: "cube_hex \<Rightarrow> int \<Rightarrow> cube_hex set \<Rightarrow> error + cube_hex set" where
  "cube_visible center radius obstacles =
     fold_err (\<lambda>ring_radius visible.
         fold_err (visible_step center radius obstacles) (cube_ring center ring_radius) visible)
       [1..radius] {center}"

subsection \<open>Path finding\<close>

text \<open>
  \<^verbatim>\<open>cube_path\<close> and \<^verbatim>\<open>cube_bfs\<close> run a breadth-first search with a \<^verbatim>\<open>while frontier\<close>
  loop. On the unbounded grid the loop need not end, so each loop is a partial function
  into \<open>option\<close>: \<open>None\<close> means the call never returns. Inside, \<open>Inl\<close> is a raised
  error; \<^verbatim>\<open>cube_path\<close> returns Python's \<^verbatim>\<open>None\<close> (here \<open>Inr None\<close>) for "no path".
  The dictionary \<^verbatim>\<open>came_from\<close> maps a hex to its predecessor, and the start to \<^verbatim>\<open>None\<close>
  (here \<open>Some None\<close>); a hex that is not a key is mapped to \<open>None\<close>. The deque is a list,
  \<^verbatim>\<open>popleft\<close> takes its head and \<^verbatim>\<open>append\<close> adds at the end. The goal set of
  \<^verbatim>\<open>cube_bfs\<close> is a Python set, hence finite.
\<close>

type_synonym came_from_map = "cube_hex \<rightharpoonup> cube_hex option"
type_synonym distance_map = "cube_hex \<rightharpoonup> int"

definition path_visit ::
  "cube_hex set \<Rightarrow> cube_hex \<Rightarrow> cube_hex \<Rightarrow> cube_hex list \<times> came_from_map
     \<Rightarrow> cube_hex list \<times> came_from_map" where
  "path_visit obstacles current neighbor st =
     (case st of (frontier, came_from) \<Rightarrow>
        if neighbor \<in> obstacles then st
        else if came_from neighbor = None
          then (frontier @ [neighbor], came_from(neighbor \<mapsto> Some current))
        else st)"

partial_function (option) path_search ::
  "cube_hex \<Rightarrow> cube_hex set \<Rightarrow> cube_hex list \<Rightarrow> came_from_map \<Rightarrow> came_from_map option" where
  "path_search goal obstacles frontier came_from =
     (case frontier of
        [] \<Rightarrow> Some came_from
      | current # rest \<Rightarrow>
          if current = goal then Some came_from
          else (case fold (path_visit obstacles current) (cube_neighbors current) (rest, came_from) of
                  (frontier', came_from') \<Rightarrow> path_search goal obstacles frontier' came_from'))"

text \<open>
  The reconstruction loop \<^verbatim>\<open>while current != start\<close>: a hex that is not a key of
  \<^verbatim>\<open>came_from\<close> raises \<^verbatim>\<open>KeyError\<close>; so does a predecessor \<^verbatim>\<open>None\<close>, one iteration later.
\<close>

partial_function (option) walk_back ::
  "cube_hex \<Rightarrow> came_from_map \<Rightarrow> cube_hex \<Rightarrow> cube_hex list \<Rightarrow> (error + cube_hex list) option" where
  "walk_back start came_from current path =
     (if current \<noteq> start then
        (case came_from current of
           None \<Rightarrow> Some (Inl KeyError)
         | Some None \<Rightarrow> Some (Inl KeyError)
         | Some (Some previous) \<Rightarrow> walk_back start came_from previous (path @ [current]))
      else Some (Inr (path @ [start])))"

definition cube_path ::
  "cube_hex \<Rightarrow> cube_hex \<Rightarrow> cube_hex set \<Rightarrow> (error + cube_hex list option) option" where
  "cube_path start goal obstacles =
     (case path_search goal obstacles [start] [start \<mapsto> None] of
        None \<Rightarrow> None
      | Some came_from \<Rightarrow>
          if came_from goal = None then Some (Inr None)
          else (case walk_back start came_from goal [] of
                  None \<Rightarrow> None
                | Some (Inl e) \<Rightarrow> Some (Inl e)
                | Some (Inr path) \<Rightarrow> Some (Inr (Some (rev path)))))"

type_synonym bfs_state = "cube_hex list \<times> came_from_map \<times> distance_map"

definition bfs_visit ::
  "cube_hex set \<Rightarrow> int option \<Rightarrow> cube_hex \<Rightarrow> cube_hex \<Rightarrow> bfs_state \<Rightarrow> error + bfs_state" where
  "bfs_visit obstacles max_distance current neighbor st =
     (case st of (frontier, came_from, distance) \<Rightarrow>
        if neighbor \<in> obstacles then Inr st
        else if distance neighbor = None then
          (case distance current of
             None \<Rightarrow> Inl KeyError
           | Some d \<Rightarrow>
               if max_distance \<noteq> None \<and> the max_distance \<le> d then Inr st
               else Inr (frontier @ [neighbor], came_from(neighbor \<mapsto> Some current),
                         distance(neighbor \<mapsto> d + 1)))
        else Inr st)"

partial_function (option) bfs_search ::
  "cube_hex set \<Rightarrow> cube_hex set \<Rightarrow> int option \<Rightarrow> cube_hex list \<Rightarrow> came_from_map
     \<Rightarrow> distance_map \<Rightarrow> cube_hex set \<Rightarrow> (error + distance_map) option" where
  "bfs_search goals obstacles max_distance frontier came_from distance found_goals =
     (case frontier of
        [] \<Rightarrow> Some (Inr distance)
      | current # rest \<Rightarrow>
          let found_goals' = (if current \<in> goals then insert current found_goals else found_goals)
          in if current \<in> goals \<and> card found_goals' = card goals then Some (Inr distance)
             else (case fold_err (bfs_visit obstacles max_distance current) (cube_neighbors current)
                          (rest, came_from, distance) of
                     Inl e \<Rightarrow> Some (Inl e)
                   | Inr (frontier', came_from', distance') \<Rightarrow>
                       bfs_search goals obstacles max_distance frontier' came_from' distance'
                         found_goals'))"

definition cube_bfs ::
  "cube_hex \<Rightarrow> cube_hex set \<Rightarrow> cube_hex set \<Rightarrow> int option \<Rightarrow> (error + distance_map) option" where
  "cube_bfs start goals obstacles max_distance =
     bfs_search goals obstacles max_distance [start] [start \<mapsto> None] [start \<mapsto> 0] {}"

subsection \<open>Offset-coordinate operations\<close>

text \<open>
  Each \<^verbatim>\<open>offset_*\<close> function selects the conversion with an \<^verbatim>\<open>if/elif\<close> chain over the
  four scheme tags whose \<^verbatim>\<open>else\<close> branch is \<^verbatim>\<open>raise ValueError("Invalid offset type")\<close>.
  \<^verbatim>\<open>offset_neighbor\<close> and \<^verbatim>\<open>offset_path\<close> convert back with a second chain that has no
  \<^verbatim>\<open>else\<close>: falling through it returns Python's \<^verbatim>\<open>None\<close>, here \<open>None\<close>.
\<close>

definition offset_distance :: "offset_hex \<Rightarrow> offset_hex \<Rightarrow> string \<Rightarrow> error + int" where
  "offset_distance a b offset_type =
     bind (if offset_type = ''odd-r'' then Inr (oddr_to_cube a, oddr_to_cube b)
           else if offset_type = ''even-r'' then Inr (evenr_to_cube a, evenr_to_cube b)
           else if offset_type = ''odd-q'' then Inr (oddq_to_cube a, oddq_to_cube b)
           else if offset_type = ''even-q'' then Inr (evenq_to_cube a, evenq_to_cube b)
           else Inl ValueError)
       (\<lambda>(ac, bc). Inr (cube_distance ac bc))"

definition offset_neighbor :: "offset_hex \<Rightarrow> int \<Rightarrow> string \<Rightarrow> error + offset_hex option" where
  "offset_neighbor hex direction offset_type =
     bind (if offset_type = ''odd-r'' then Inr (oddr_to_cube hex)
           else if offset_type = ''even-r'' then Inr (evenr_to_cube hex)
           else if offset_type = ''odd-q'' then Inr (oddq_to_cube hex)
           else if offset_type = ''even-q'' then Inr (evenq_to_cube hex)
           else Inl ValueError)
       (\<lambda>cube. let neighbor = cube_neighbor cube direction in
          if offset_type = ''odd-r'' then Inr (Some (cube_to_oddr neighbor))
          else if offset_type = ''even-r'' then Inr (Some (cube_to_evenr neighbor))
          else if offset_type = ''odd-q'' then Inr (Some (cube_to_oddq neighbor))
          else if offset_type = ''even-q'' then Inr (Some (cube_to_evenq neighbor))
          else Inr None)"

definition offset_ring :: "offset_hex \<Rightarrow> int \<Rightarrow> string \<Rightarrow> error + offset_hex list" where
  "offset_ring center radius offset_type =
     (if offset_type = ''odd-r''
        then Inr (map cube_to_oddr (cube_ring (oddr_to_cube center) radius))
      else if offset_type = ''even-r''
        then Inr (map cube_to_evenr (cube_ring (evenr_to_cube center) radius))
      else if offset_type = ''odd-q''
        then Inr (map cube_to_oddq (cube_ring (oddq_to_cube center) radius))
      else if offset_type = ''even-q''
        then Inr (map cube_to_evenq (cube_ring (evenq_to_cube center) radius))
      else Inl ValueError)"

definition offset_spiral :: "offset_hex \<Rightarrow> int \<Rightarrow> string \<Rightarrow> error + offset_hex list" where
  "offset_spiral center radius offset_type =
     (if offset_type = ''odd-r''
        then Inr (map cube_to_oddr (cube_spiral (oddr_to_cube center) radius))
      else if offset_type = ''even-r''
        then Inr (map cube_to_evenr (cube_spiral (evenr_to_cube center) radius))
      else if offset_type = ''odd-q''
        then Inr (map cube_to_oddq (cube_spiral (oddq_to_cube center) radius))
      else if offset_type = ''even-q''
        then Inr (map cube_to_evenq (cube_spiral (evenq_to_cube center) radius))
      else Inl ValueError)"

definition offset_line :: "offset_hex \<Rightarrow> offset_hex \<Rightarrow> string \<Rightarrow> error + offset_hex list" where
  "offset_line a b offset_type =
     (if offset_type = ''odd-r''
        then bind (cube_line (oddr_to_cube a) (oddr_to_cube b)) (\<lambda>line. Inr (map cube_to_oddr line))
      else if offset_type = ''even-r''
        then bind (cube_line (evenr_to_cube a) (evenr_to_cube b)) (\<lambda>line. Inr (map cube_to_evenr line))
      else if offset_type = ''odd-q''
        then bind (cube_line (oddq_to_cube a) (oddq_to_cube b)) (\<lambda>line. Inr (map cube_to_oddq line))
      else if offset_type = ''even-q''
        then bind (cube_line (evenq_to_cube a) (evenq_to_cube b)) (\<lambda>line. Inr (map cube_to_evenq line))
      else Inl ValueError)"

definition offset_visible ::
  "offset_hex \<Rightarrow> int \<Rightarrow> offset_hex set \<Rightarrow> string \<Rightarrow> error + offset_hex set" where
  "offset_visible center radius obstacles offset_type =
     (if offset_type = ''odd-r''
        then bind (cube_visible (oddr_to_cube center) radius (oddr_to_cube ` obstacles))
               (\<lambda>visible_cubes. Inr (cube_to_oddr ` visible_cubes))
      else if offset_type = ''even-r''
        then bind (cube_visible (evenr_to_cube center) radius (evenr_to_cube ` obstacles))
               (\<lambda>visible_cubes. Inr (cube_to_evenr ` visible_cubes))
      else if offset_type = ''odd-q''
        then bind (cube_visible (oddq_to_cube center) radius (oddq_to_cube ` obstacles))
               (\<lambda>visible_cubes. Inr (cube_to_oddq ` visible_cubes))
      else if offset_type = ''even-q''
        then bind (cube_visible (evenq_to_cube center) radius (evenq_to_cube ` obstacles))
               (\<lambda>visible_cubes. Inr (cube_to_evenq ` visible_cubes))
      else Inl ValueError)"

text \<open>
  \<^verbatim>\<open>offset_path\<close>: the tag is checked before \<^verbatim>\<open>cube_path\<close> is called, so an unrecognised
  tag raises whether or not the search would return.
\<close>

definition offset_path ::
  "offset_hex \<Rightarrow> offset_hex \<Rightarrow> offset_hex set \<Rightarrow> string
     \<Rightarrow> (error + offset_hex list option) option" where
  "offset_path start goal obstacles offset_type =
     (case (if offset_type = ''odd-r''
              then Inr (oddr_to_cube start, oddr_to_cube goal, oddr_to_cube ` obstacles)
            else if offset_type = ''even-r''
              then Inr (evenr_to_cube start, evenr_to_cube goal, evenr_to_cube ` obstacles)
            else if offset_type = ''odd-q''
              then Inr (oddq_to_cube start, oddq_to_cube goal, oddq_to_cube ` obstacles)
            else if offset_type = ''even-q''
              then Inr (evenq_to_cube start, evenq_to_cube goal, evenq_to_cube ` obstacles)
            else Inl ValueError) of
        Inl e \<Rightarrow> Some (Inl e)
      | Inr (cube_start, cube_goal, cube_obstacles) \<Rightarrow>
          (case cube_path cube_start cube_goal cube_obstacles of
             None \<Rightarrow> None
           | Some (Inl e) \<Rightarrow> Some (Inl e)
           | Some (Inr None) \<Rightarrow> Some (Inr None)
           | Some (Inr (Some cube_path_result)) \<Rightarrow>
               Some (Inr (if offset_type = ''odd-r'' then Some (map cube_to_oddr cube_path_result)
                          else if offset_type = ''even-r'' then Some (map cube_to_evenr cube_path_result)
                          else if offset_type = ''odd-q'' then Some (map cube_to_oddq cube_path_result)
                          else if offset_type = ''even-q'' then Some (map cube_to_evenq cube_path_result)
                          else None))))"

subsection \<open>Pixel conversions\<close>

text \<open>
  The two orientation dictionaries hold binary64 constants. \<^verbatim>\<open>math.sqrt(3.0)\<close> is the
  float \<^verbatim>\<open>0x1.bb67ae8584caap+0\<close> and \<^verbatim>\<open>math.pi\<close> the float \<^verbatim>\<open>0x1.921fb54442d18p+1\<close>; the
  other entries are float quotients of finite floats by a non-zero float, which is the
  exact quotient rounded.
\<close>

definition math_sqrt_3 :: rat where
  "math_sqrt_3 = 7800463371553962 / 2 ^ 52"

definition math_pi :: rat where
  "math_pi = 884279719003555 / 2 ^ 48"

definition float_quotient :: "rat \<Rightarrow> rat \<Rightarrow> pynum" where
  "float_quotient x y = PyFloat (to_float (x / y))"

record orientation =
  f0 :: pynum
  f1 :: pynum
  f2 :: pynum
  f3 :: pynum
  b0 :: pynum
  b1 :: pynum
  b2 :: pynum
  b3 :: pynum
  start_angle :: pynum

definition LAYOUT_POINTY :: orientation where
  "LAYOUT_POINTY = \<lparr>
     f0 = PyFloat (Finite math_sqrt_3),
     f1 = float_quotient math_sqrt_3 2,
     f2 = PyFloat (Finite 0),
     f3 = float_quotient 3 2,
     b0 = float_quotient math_sqrt_3 3,
     b1 = float_quotient (- 1) 3,
     b2 = PyFloat (Finite 0),
     b3 = float_quotient 2 3,
     start_angle = PyFloat (Finite (1 / 2)) \<rparr>"

definition LAYOUT_FLAT :: orientation where
  "LAYOUT_FLAT = \<lparr>
     f0 = float_quotient 3 2,
     f1 = PyFloat (Finite 0),
     f2 = float_quotient math_sqrt_3 2,
     f3 = PyFloat (Finite math_sqrt_3),
     b0 = float_quotient 2 3,
     b1 = PyFloat (Finite 0),
     b2 = float_quotient (- 1) 3,
     b3 = float_quotient math_sqrt_3 3,
     start_angle = PyFloat (Finite 0) \<rparr>"

text \<open>
  \<^verbatim>\<open>hex_to_pixel\<close> and \<^verbatim>\<open>pixel_to_hex\<close> choose the orientation with
  \<^verbatim>\<open>if layout == 'pointy': ... else: orientation = LAYOUT_FLAT\<close>. The parameter \<^verbatim>\<open>size\<close> is
  written \<open>size'\<close>.
\<close>

definition hex_to_pixel :: "cube_hex \<Rightarrow> pynum \<Rightarrow> string \<Rightarrow> error + pynum \<times> pynum" where
  "hex_to_pixel hex size' layout =
     (let orientation = (if layout = ''pointy'' then LAYOUT_POINTY else LAYOUT_FLAT) in
      case hex of (h0, h1, h2) \<Rightarrow>
        bind (bind (bind (num_mul (f0 orientation) (PyInt h0)) (\<lambda>u.
                bind (num_mul (f1 orientation) (PyInt h1)) (num_add u))) (\<lambda>v. num_mul v size')) (\<lambda>x.
        bind (bind (bind (num_mul (f2 orientation) (PyInt h0)) (\<lambda>u.
                bind (num_mul (f3 orientation) (PyInt h1)) (num_add u))) (\<lambda>v. num_mul v size')) (\<lambda>y.
        Inr (x, y))))"

definition pixel_to_hex :: "pynum \<times> pynum \<Rightarrow> pynum \<Rightarrow> string \<Rightarrow> error + cube_hex" where
  "pixel_to_hex point size' layout =
     (let orientation = (if layout = ''pointy'' then LAYOUT_POINTY else LAYOUT_FLAT) in
      case point of (x, y) \<Rightarrow>
        bind (num_div x size') (\<lambda>x.
        bind (num_div y size') (\<lambda>y.
        bind (bind (num_mul (b0 orientation) x) (\<lambda>u.
                bind (num_mul (b1 orientation) y) (num_add u))) (\<lambda>q.
        bind (bind (num_mul (b2 orientation) x) (\<lambda>u.
                bind (num_mul (b3 orientation) y) (num_add u))) (\<lambda>r.
        bind (num_sub (num_neg q) r) (\<lambda>s.
        cube_round (q, r, s)))))))"

text \<open>
  \<^verbatim>\<open>hex_corner_offset\<close> adds \<^verbatim>\<open>30 if layout == 'pointy' else 0\<close> degrees. \<^verbatim>\<open>math.cos\<close> and
  \<^verbatim>\<open>math.sin\<close> belong to the C library; they are parameters of the model, and may raise
  (as they do on an infinity).
\<close>

definition hex_corner_offset ::
  "(pyfloat \<Rightarrow> error + pyfloat) \<Rightarrow> (pyfloat \<Rightarrow> error + pyfloat) \<Rightarrow> int \<Rightarrow> pynum \<Rightarrow> string
     \<Rightarrow> error + pynum \<times> pynum" where
  "hex_corner_offset math_cos math_sin corner size' layout =
     (let angle_deg = 60 * corner + (if layout = ''pointy'' then 30 else 0) in
      bind (bind (num_div (PyFloat (Finite math_pi)) (PyInt 180)) (\<lambda>u. num_mul u (PyInt angle_deg)))
        (\<lambda>angle_rad.
      bind (bind (bind (as_float angle_rad) math_cos) (\<lambda>c. num_mul size' (PyFloat c))) (\<lambda>x.
      bind (bind (bind (as_float angle_rad) math_sin) (\<lambda>s. num_mul size' (PyFloat s))) (\<lambda>y.
      Inr (x, y)))))"

subsection \<open>Auxiliary notions for the proofs\<close>

text \<open>One side of a ring in closed form, and the whole ring as six explicit sides.\<close>

definition side :: "int \<Rightarrow> cube_hex \<Rightarrow> nat \<Rightarrow> cube_hex list" where
  "side i h n = map (\<lambda>j. cube_add h (cube_scale (CUBE_DIRECTIONS ! nat (i mod 6)) (int j))) [0..<n]"

definition ring_closed :: "cube_hex \<Rightarrow> nat \<Rightarrow> cube_hex list" where
  "ring_closed c n = (case c of (q, r, s) \<Rightarrow>
     map (\<lambda>j. (q - int n + int j, r + int n, s - int j)) [0..<n] @
     map (\<lambda>j. (q + int j, r + int n - int j, s - int n)) [0..<n] @
     map (\<lambda>j. (q + int n, r - int j, s - int n + int j)) [0..<n] @
     map (\<lambda>j. (q + int n - int j, r - int n, s + int j)) [0..<n] @
     map (\<lambda>j. (q - int j, r - int n + int j, s + int n)) [0..<n] @
     map (\<lambda>j. (q - int n, r + int j, s + int n - int j)) [0..<n])"

text \<open>
  Two outcomes of the field of view are related when both raise the same error, or both
  return and the first set is included in the second.
\<close>

definition result_le :: "error + cube_hex set \<Rightarrow> error + cube_hex set \<Rightarrow> bool" where
  "result_le x y = (case x of Inl e \<Rightarrow> y = Inl e | Inr V \<Rightarrow> (\<exists>V'. y = Inr V' \<and> V \<subseteq> V'))"

text \<open>
  The predecessor chain from a hex back to the start, a path whose every step enters a
  neighbour that is not an obstacle, and the invariant of the search loop of
  \<^verbatim>\<open>cube_path\<close>.
\<close>

inductive chain :: "came_from_map \<Rightarrow> cube_hex \<Rightarrow> cube_hex \<Rightarrow> cube_hex list \<Rightarrow> bool"
  for cf :: came_from_map and s :: cube_hex where
  chain_start: "chain cf s s []"
| chain_step: "cf h = Some (Some p) \<Longrightarrow> h \<noteq> s \<Longrightarrow> chain cf s p l \<Longrightarrow> chain cf s h (h # l)"

fun path_ok :: "cube_hex set \<Rightarrow> cube_hex list \<Rightarrow> bool" where
  "path_ok obs [] = True"
| "path_ok obs [x] = True"
| "path_ok obs (x # y # r) = (y \<in> set (cube_neighbors x) \<and> y \<notin> obs \<and> path_ok obs (y # r))"

definition path_inv :: "cube_hex \<Rightarrow> cube_hex set \<Rightarrow> cube_hex list \<Rightarrow> came_from_map \<Rightarrow> bool" where
  "path_inv s obs Q cf \<longleftrightarrow>
     cf s = Some None \<and> set Q \<subseteq> dom cf \<and>
     (\<forall>h p. cf h = Some (Some p) \<longrightarrow> h \<notin> obs \<and> h \<in> set (cube_neighbors p)) \<and>
     (\<forall>h \<in> dom cf. \<exists>l. chain cf s h l) \<and>
     (\<forall>h \<in> dom cf. h \<notin> set Q \<longrightarrow> (\<forall>n \<in> set (cube_neighbors h). n \<notin> obs \<longrightarrow> n \<in> dom cf))"

text \<open>The scheme tags that the offset operations recognise.\<close>

definition offset_types :: "string set" where
  "offset_types = {''odd-r'', ''even-r'', ''odd-q'', ''even-q''}"


section \<open>Properties\<close>

subsection \<open>Conversions\<close>

lemma and_one_int: "(x::int) AND 1 = x mod 2"
  by (simp add: and_one_eq)

text \<open>
  C7. For each of the four parity schemes, converting a zero-sum cube hex to offset
  coordinates and back returns the hex itself, and so does the axial round trip. All
  conversions are functions on \<^typ>\<open>int\<close>: no fractional arithmetic takes part.
\<close>

theorem conversion_round_trip:
  assumes "zero_sum h"
  shows "oddr_to_cube (cube_to_oddr h) = h
       \<and> evenr_to_cube (cube_to_evenr h) = h
       \<and> oddq_to_cube (cube_to_oddq h) = h
       \<and> evenq_to_cube (cube_to_evenq h) = h
       \<and> axial_to_cube (cube_to_axial h) = h"
proof -
  obtain q r s where h: "h = (q, r, s)" by (cases h)
  with assms have s: "s = - q - r" by (simp add: zero_sum_def)
  show ?thesis by (simp add: h s Let_def)
qed

theorem conversion_round_trip_witness:
  "zero_sum (2, -3, 1) \<and> oddr_to_cube (cube_to_oddr (2, -3, 1)) = (2, -3, 1)
       \<and> evenr_to_cube (cube_to_evenr (2, -3, 1)) = (2, -3, 1)
       \<and> oddq_to_cube (cube_to_oddq (2, -3, 1)) = (2, -3, 1)
       \<and> evenq_to_cube (cube_to_evenq (2, -3, 1)) = (2, -3, 1)
       \<and> axial_to_cube (cube_to_axial (2, -3, 1)) = (2, -3, 1)"
proof -
  have z: "zero_sum (2, -3, 1)" by (simp add: zero_sum_def)
  from conversion_round_trip [OF z] z show ?thesis by blast
qed

subsection \<open>Rectangular maps\<close>

lemma fold_insert_rows:
  "fold (\<lambda>row hexes. insert (col, row) hexes) rows acc = acc \<union> {(col, row) | row. row \<in> set rows}"
  by (induction rows arbitrary: acc) auto

lemma fold_union_cols:
  "fold (\<lambda>col hexes. hexes \<union> {(col, row) | row. row \<in> set rows}) cols acc
     = acc \<union> {(col, row) | col row. col \<in> set cols \<and> row \<in> set rows}"
  by (induction cols arbitrary: acc) auto

lemma fold_insert_cols:
  "fold (\<lambda>col hexes. fold (\<lambda>row hexes. insert (col, row) hexes) rows hexes) cols acc
     = acc \<union> {(col, row) | col row. col \<in> set cols \<and> row \<in> set rows}"
  unfolding fold_insert_rows by (rule fold_union_cols)

text \<open>
  C10. The rectangular map does not depend on its parity-scheme argument: for any two
  scheme strings it returns, without failing, the set of all \<open>(col, row)\<close> with
  \<open>0 \<le> col < width\<close> and \<open>0 \<le> row < height\<close>.
\<close>

theorem rectangular_map_ignores_scheme:
  "generate_rectangular_map width height s1 = generate_rectangular_map width height s2
   \<and> generate_rectangular_map width height s1
       = Inr {(col, row). 0 \<le> col \<and> col < width \<and> 0 \<le> row \<and> row < height}"
  by (auto simp: generate_rectangular_map_def fold_insert_cols)

subsection \<open>Rings and spirals\<close>

lemma upto_0_5: "[0..5] = [0,1,2,3,4,5::int]"
  by (simp add: upto.simps)

lemma dir_simps:
  "cube_neighbor (q, r, s) 0 = (q + 1, r, s - 1)"
  "cube_neighbor (q, r, s) 1 = (q + 1, r - 1, s)"
  "cube_neighbor (q, r, s) 2 = (q, r - 1, s + 1)"
  "cube_neighbor (q, r, s) 3 = (q - 1, r, s + 1)"
  "cube_neighbor (q, r, s) 4 = (q - 1, r + 1, s)"
  "cube_neighbor (q, r, s) 5 = (q, r + 1, s - 1)"
  by (simp_all add: cube_neighbor_def CUBE_DIRECTIONS_def)

lemma cube_neighbor_scale:
  "cube_neighbor (cube_add h (cube_scale (CUBE_DIRECTIONS ! nat (i mod 6)) k)) i
     = cube_add h (cube_scale (CUBE_DIRECTIONS ! nat (i mod 6)) (k + 1))"
  by (cases h; cases "CUBE_DIRECTIONS ! nat (i mod 6)") (simp add: cube_neighbor_def algebra_simps)

lemma ring_side_closed:
  "ring_side i n (h, res) =
     (cube_add h (cube_scale (CUBE_DIRECTIONS ! nat (i mod 6)) (int n)), res @ side i h n)"
proof (induction n arbitrary: h res)
  case 0
  show ?case by (cases h; cases "CUBE_DIRECTIONS ! nat (i mod 6)") (simp add: side_def)
next
  case (Suc n)
  have a: "cube_neighbor h i = cube_add h (cube_scale (CUBE_DIRECTIONS ! nat (i mod 6)) 1)"
    by (cases h; cases "CUBE_DIRECTIONS ! nat (i mod 6)") (simp add: cube_neighbor_def)
  have b: "cube_add (cube_add h (cube_scale d 1)) (cube_scale d k) = cube_add h (cube_scale d (k + 1))" for d k
    by (cases h; cases d) (simp add: algebra_simps)
  have c: "side i h (Suc n) = h # side i (cube_neighbor h i) n"
    unfolding side_def a
    by (cases h; cases "CUBE_DIRECTIONS ! nat (i mod 6)")
       (simp add: map_upt_Suc algebra_simps del: upt_Suc)
  show ?case
    by (simp add: Suc.IH c) (simp add: a b add.commute)
qed

lemma cube_ring_closed:
  assumes "0 < radius"
  shows "cube_ring c radius = ring_closed c (nat radius)"
proof -
  obtain q r s where c: "c = (q, r, s)" by (cases c)
  from assms have n: "int (nat radius) = radius" by simp
  show ?thesis using assms
    by (simp add: cube_ring_def upto_0_5 c ring_side_closed side_def CUBE_DIRECTIONS_def
        ring_closed_def n algebra_simps)
qed

lemma distinct_ring_closed: "distinct (ring_closed c n)"
proof -
  obtain q r s where c: "c = (q, r, s)" by (cases c)
  show ?thesis
    by (auto simp: c ring_closed_def distinct_map inj_on_def)
qed

lemma length_ring_closed: "length (ring_closed c n) = 6 * n"
  by (cases c) (simp add: ring_closed_def)

lemma distance_ring_closed: "h \<in> set (ring_closed c n) \<Longrightarrow> cube_distance c h = int n"
  by (cases c) (auto simp: ring_closed_def)

lemma fold_append_concat: "fold (\<lambda>k res. res @ f k) ks acc = acc @ concat (map f ks)"
  by (induction ks arbitrary: acc) auto

lemma cube_spiral_concat: "cube_spiral c r = c # concat (map (cube_ring c) [1..r])"
  by (simp add: cube_spiral_def fold_append_concat)

lemma length_cube_ring: "0 < k \<Longrightarrow> int (length (cube_ring c k)) = 6 * k"
  by (simp add: cube_ring_closed length_ring_closed)

lemma distance_cube_ring: "0 < k \<Longrightarrow> h \<in> set (cube_ring c k) \<Longrightarrow> cube_distance c h = k"
  by (simp add: cube_ring_closed distance_ring_closed)

lemma length_rings_upto:
  "int (length (concat (map (cube_ring c) [1..int n]))) = 3 * int n * int n + 3 * int n"
proof (induction n)
  case 0
  show ?case by simp
next
  case (Suc n)
  have "[1..int (Suc n)] = [1..int n] @ [int (Suc n)]"
    using upto_rec2 [of 1 "int (Suc n)"] by simp
  then show ?case
    using Suc.IH length_cube_ring [of "int (Suc n)" c] by (simp add: algebra_simps)
qed

lemma distinct_rings_upto: "distinct (concat (map (cube_ring c) [1..r]))"
proof (rule distinct_concat)
  have "inj_on (cube_ring c) (set [1..r])"
  proof (rule inj_onI)
    fix x y assume "x \<in> set [1..r]" "y \<in> set [1..r]" "cube_ring c x = cube_ring c y"
    then have "0 < x" "0 < y" "length (cube_ring c x) = length (cube_ring c y)" by simp_all
    then have "6 * x = 6 * y"
      using length_cube_ring [of x c] length_cube_ring [of y c] by presburger
    then show "x = y" by simp
  qed
  then show "distinct (map (cube_ring c) [1..r])"
    by (simp add: distinct_map)
next
  fix ys assume "ys \<in> set (map (cube_ring c) [1..r])"
  then show "distinct ys"
    by (auto simp: cube_ring_closed distinct_ring_closed)
next
  fix ys zs
  assume ys: "ys \<in> set (map (cube_ring c) [1..r])"
    and zs: "zs \<in> set (map (cube_ring c) [1..r])" and ne: "ys \<noteq> zs"
  from ys obtain k where k: "ys = cube_ring c k" "k \<in> set [1..r]" by auto
  from zs obtain l where l: "zs = cube_ring c l" "l \<in> set [1..r]" by auto
  from ne k l have kl: "k \<noteq> l" by auto
  from k l have pos: "0 < k" "0 < l" by simp_all
  show "set ys \<inter> set zs = {}"
  proof (rule ccontr)
    assume "set ys \<inter> set zs \<noteq> {}"
    then obtain h where hk: "h \<in> set (cube_ring c k)" and hl: "h \<in> set (cube_ring c l)"
      using k l by auto
    have "cube_distance c h = k" using pos(1) hk by (rule distance_cube_ring)
    moreover have "cube_distance c h = l" using pos(2) hl by (rule distance_cube_ring)
    ultimately show False using kl by simp
  qed
qed

lemma center_not_in_rings: "c \<notin> set (concat (map (cube_ring c) [1..r]))"
proof
  assume "c \<in> set (concat (map (cube_ring c) [1..r]))"
  then obtain k where "k \<in> set [1..r]" and k: "c \<in> set (cube_ring c k)" by auto
  then have "0 < k" by simp
  then have "cube_distance c c = k" using k by (rule distance_cube_ring)
  with \<open>0 < k\<close> show False by (cases c) simp
qed

text \<open>
  C6. A ring of radius 0 is the centre alone. For \<open>r > 0\<close> the ring starts at
  \<open>center + direction[4] * r\<close>, has exactly \<open>6 * r\<close> pairwise distinct hexes, each at
  cube distance \<open>r\<close> from the centre. The spiral is the centre followed by the rings
  \<open>1..r\<close> in increasing order, and for \<open>r \<ge> 0\<close> it has \<open>3r\<^sup>2 + 3r + 1\<close> distinct hexes.
\<close>

theorem ring_spiral_shape:
  "cube_ring center 0 = [center]
   \<and> (0 < r \<longrightarrow>
        hd (cube_ring center r) = cube_add center (cube_scale (CUBE_DIRECTIONS ! 4) r)
      \<and> int (length (cube_ring center r)) = 6 * r
      \<and> distinct (cube_ring center r)
      \<and> (\<forall>h \<in> set (cube_ring center r). cube_distance center h = r))
   \<and> cube_spiral center r = center # concat (map (cube_ring center) [1..r])
   \<and> (0 \<le> r \<longrightarrow>
        int (length (cube_spiral center r)) = 3 * r * r + 3 * r + 1
      \<and> distinct (cube_spiral center r))"
proof (intro conjI impI)
  show "cube_ring center 0 = [center]" by (simp add: cube_ring_def)
next
  assume r: "0 < r"
  then obtain m where m: "nat r = Suc m" by (cases "nat r") auto
  obtain q s t where c: "center = (q, s, t)" by (cases center)
  from r have "int (nat r) = r" by simp
  then show "hd (cube_ring center r) = cube_add center (cube_scale (CUBE_DIRECTIONS ! 4) r)"
    using r by (simp add: cube_ring_closed ring_closed_def c upt_rec [of 0 "nat r"]
       CUBE_DIRECTIONS_def)
next
  assume "0 < r"
  then show "int (length (cube_ring center r)) = 6 * r" by (rule length_cube_ring)
next
  assume "0 < r"
  then show "distinct (cube_ring center r)" by (simp add: cube_ring_closed distinct_ring_closed)
next
  assume "0 < r"
  then show "\<forall>h \<in> set (cube_ring center r). cube_distance center h = r"
    by (simp add: distance_cube_ring)
next
  show "cube_spiral center r = center # concat (map (cube_ring center) [1..r])"
    by (rule cube_spiral_concat)
next
  assume "0 \<le> r"
  then have "int (nat r) = r" by simp
  with length_rings_upto [of center "nat r"]
  show "int (length (cube_spiral center r)) = 3 * r * r + 3 * r + 1"
    by (simp add: cube_spiral_concat)
next
  show "distinct (cube_spiral center r)"
    unfolding cube_spiral_concat distinct.simps
    using distinct_rings_upto center_not_in_rings by blast
qed

theorem ring_spiral_shape_witness:
  "cube_ring (0, 0, 0) 0 = [(0, 0, 0)]
   \<and> (0::int) < 2
   \<and> hd (cube_ring (0, 0, 0) 2) = cube_add (0, 0, 0) (cube_scale (CUBE_DIRECTIONS ! 4) 2)
   \<and> int (length (cube_ring (0, 0, 0) 2)) = 6 * 2
   \<and> distinct (cube_ring (0, 0, 0) 2)
   \<and> list_all (\<lambda>h. cube_distance (0, 0, 0) h = 2) (cube_ring (0, 0, 0) 2)
   \<and> cube_spiral (0, 0, 0) 2 = (0, 0, 0) # concat (map (cube_ring (0, 0, 0)) [1..2])
   \<and> int (length (cube_spiral (0, 0, 0) 2)) = 3 * 2 * 2 + 3 * 2 + 1
   \<and> distinct (cube_spiral (0, 0, 0) 2)"
proof -
  have p: "(0::int) < 2" "(0::int) \<le> 2" by simp_all
  from ring_spiral_shape [of "(0, 0, 0)" 2] p show ?thesis
    unfolding list_all_iff by blast
qed


subsection \<open>Evaluating float arithmetic\<close>

lemma bitlen_numeral:
  "bitlen 0 = 0" "bitlen 1 = 1" "bitlen (numeral k) = 1 + bitlen (numeral k div 2)"
  by (simp_all add: bitlen.simps [of 0] bitlen.simps [of 1] bitlen.simps [of "numeral k"])

lemma floor_rat_numeral:
  "\<lfloor>numeral a / numeral b :: rat\<rfloor> = numeral a div numeral b"
  "\<lfloor>- (numeral a / numeral b) :: rat\<rfloor> = - numeral a div numeral b"
  "\<lfloor>1 / numeral b :: rat\<rfloor> = 1 div numeral b"
  "\<lfloor>- (1 / numeral b) :: rat\<rfloor> = - 1 div numeral b"
  using floor_divide_of_int_eq [of "numeral a" "numeral b", where ?'a = rat]
    floor_divide_of_int_eq [of "- numeral a" "numeral b", where ?'a = rat]
    floor_divide_of_int_eq [of 1 "numeral b", where ?'a = rat]
    floor_divide_of_int_eq [of "- 1" "numeral b", where ?'a = rat]
  by simp_all

lemma ceiling_rat_numeral:
  "\<lceil>numeral a / numeral b :: rat\<rceil> = - (- numeral a div numeral b)"
  "\<lceil>1 / numeral b :: rat\<rceil> = - (- 1 div numeral b)"
  unfolding ceiling_def by (simp_all add: floor_rat_numeral)

lemmas float_eval = fl_def floor_log2_def round_half_even_def pow2_def Let_def
  bitlen_numeral floor_rat_numeral ceiling_rat_numeral to_float_def float_of_int_def
  float_sub_def float_op_def bind_def float_literal_def num_gt_def

subsection \<open>Lines\<close>

lemma line_example_1: "cube_line (0, 0, 0) (1, 1, - 2) = Inr [(0, 0, 0), (1, 1, - 2), (1, 1, - 2)]"
  by (simp add: cube_line_def line_sample_def float_eval upto.simps)

lemma line_example_0: "cube_line (0, 0, 0) (0, 0, 0) = Inl ZeroDivisionError"
  by (simp add: cube_line_def line_sample_def float_eval upto.simps)

text \<open>
  C1 (evaluation at the failing input). From \<open>(0, 0, 0)\<close> to \<open>(1, 1, -2)\<close>, at distance
  2, the line has three hexes, starts and ends at the endpoints, but its first two hexes
  are at distance 2 and its last two are equal: the middle sample rounds \<open>q\<close> and \<open>r\<close>
  independently inside \<^verbatim>\<open>cube_lerp\<close>, and \<^verbatim>\<open>cube_round\<close> then sees integers only.
\<close>

theorem line_gap_example:
  "cube_line (0, 0, 0) (1, 1, - 2) = Inr [(0, 0, 0), (1, 1, - 2), (1, 1, - 2)]
   \<and> cube_distance (0, 0, 0) (1, 1, - 2) = 2
   \<and> cube_distance (1, 1, - 2) (1, 1, - 2) = 0"
  by (simp add: line_example_1)

lemma line_sample_zero: "line_sample an bn 0 i = Inl ZeroDivisionError"
  by (simp add: line_sample_def float_eval)

text \<open>
  C2 (evaluation at the failing input). A line from a hex to itself has \<open>N = 0\<close>; the
  loop body runs once and divides \<^verbatim>\<open>1.0\<close> by \<open>N\<close>. The call raises for every hex, and
  for the origin the error is \<^verbatim>\<open>ZeroDivisionError\<close>.
\<close>

theorem line_same_hex_fails:
  "cube_line (0, 0, 0) (0, 0, 0) = Inl ZeroDivisionError \<and> (\<exists>e. cube_line a a = Inl e)"
proof
  show "cube_line (0, 0, 0) (0, 0, 0) = Inl ZeroDivisionError" by (rule line_example_0)
next
  obtain q r s where a: "a = (q, r, s)" by (cases a)
  have N: "cube_distance a a = 0" by (simp add: a)
  show "\<exists>e. cube_line a a = Inl e"
    by (cases "nudge a") (simp_all add: cube_line_def N bind_def upto.simps line_sample_zero)
qed

subsection \<open>Field of view\<close>

lemma line_blocked_mono:
  "obs' \<subseteq> obs \<Longrightarrow> line_blocked c r obs' l \<Longrightarrow> line_blocked c r obs l"
  by (induction l) (auto split: if_splits)

lemma visible_ring_mono:
  assumes "obs' \<subseteq> obs" "V \<subseteq> V'"
  shows "result_le (fold_err (visible_step c r obs) hs V) (fold_err (visible_step c r obs') hs V')"
  using assms(2)
proof (induction hs arbitrary: V V')
  case Nil
  then show ?case by (simp add: result_le_def)
next
  case (Cons h hs)
  show ?case
  proof (cases "cube_line c h")
    case (Inl e)
    then have "visible_step c r obs h V = Inl e" "visible_step c r obs' h V' = Inl e"
      by (simp_all add: visible_step_def bind_def)
    then show ?thesis by (simp add: bind_def result_le_def)
  next
    case (Inr l)
    let ?W = "if \<not> line_blocked c r obs l then insert h V else V"
    let ?W' = "if \<not> line_blocked c r obs' l then insert h V' else V'"
    have "?W \<subseteq> ?W'"
      using Cons.prems line_blocked_mono [OF assms(1), of c r l] by auto
    then have "result_le (fold_err (visible_step c r obs) hs ?W) (fold_err (visible_step c r obs') hs ?W')"
      by (rule Cons.IH)
    moreover have "visible_step c r obs h V = Inr ?W" "visible_step c r obs' h V' = Inr ?W'"
      by (simp_all add: visible_step_def bind_def Inr)
    ultimately show ?thesis
      by (simp add: bind_def)
  qed
qed

lemma visible_rings_mono:
  assumes "obs' \<subseteq> obs" "V \<subseteq> V'"
  shows "result_le
     (fold_err (\<lambda>k v. fold_err (visible_step c r obs) (cube_ring c k) v) ks V)
     (fold_err (\<lambda>k v. fold_err (visible_step c r obs') (cube_ring c k) v) ks V')"
  using assms(2)
proof (induction ks arbitrary: V V')
  case Nil
  then show ?case by (simp add: result_le_def)
next
  case (Cons k ks)
  have step: "result_le (fold_err (visible_step c r obs) (cube_ring c k) V)
                (fold_err (visible_step c r obs') (cube_ring c k) V')"
    using assms(1) Cons.prems by (rule visible_ring_mono)
  show ?case
  proof (cases "fold_err (visible_step c r obs) (cube_ring c k) V")
    case (Inl e)
    with step show ?thesis by (simp add: result_le_def bind_def)
  next
    case (Inr W)
    with step obtain W' where W': "fold_err (visible_step c r obs') (cube_ring c k) V' = Inr W'"
      and sub: "W \<subseteq> W'" by (auto simp: result_le_def)
    from Cons.IH [OF sub] show ?thesis by (simp add: Inr W' bind_def)
  qed
qed

text \<open>
  C9. The field of view is monotone in the obstacle set: with fewer obstacles the call
  raises the same error if it raised before, and otherwise returns a superset of the
  hexes it returned before.
\<close>

theorem visible_monotone:
  assumes "obs' \<subseteq> obs"
  shows "case cube_visible center radius obs of
           Inl e \<Rightarrow> cube_visible center radius obs' = Inl e
         | Inr V \<Rightarrow> \<exists>V'. cube_visible center radius obs' = Inr V' \<and> V \<subseteq> V'"
  using visible_rings_mono [OF assms, of "{center}" "{center}" center radius "[1..radius]"]
  unfolding cube_visible_def result_le_def by simp

lemma line_unit:
  "cube_line (0, 0, 0) (- 1, 1, 0) = Inr [(0, 0, 0), (- 1, 1, 0)]"
  "cube_line (0, 0, 0) (0, 1, - 1) = Inr [(0, 0, 0), (0, 1, - 1)]"
  "cube_line (0, 0, 0) (1, 0, - 1) = Inr [(0, 0, 0), (1, 0, - 1)]"
  "cube_line (0, 0, 0) (1, - 1, 0) = Inr [(0, 0, 0), (1, - 1, 0)]"
  "cube_line (0, 0, 0) (0, - 1, 1) = Inr [(0, 0, 0), (0, - 1, 1)]"
  "cube_line (0, 0, 0) (- 1, 0, 1) = Inr [(0, 0, 0), (- 1, 0, 1)]"
  by (simp_all add: cube_line_def line_sample_def float_eval upto.simps)

lemma ring_1: "cube_ring (0, 0, 0) 1 =
   [(- 1, 1, 0), (0, 1, - 1), (1, 0, - 1), (1, - 1, 0), (0, - 1, 1), (- 1, 0, 1)]"
  by (simp add: cube_ring_def upto_0_5 dir_simps CUBE_DIRECTIONS_def)

lemma visible_example_blocked:
  "cube_visible (0, 0, 0) 1 {(1, 0, - 1)} =
     Inr {(0, 0, 0), (- 1, 1, 0), (0, 1, - 1), (1, - 1, 0), (0, - 1, 1), (- 1, 0, 1)}"
  by (simp add: cube_visible_def upto.simps ring_1 visible_step_def line_unit bind_def) blast

lemma visible_example_free:
  "cube_visible (0, 0, 0) 1 {} =
     Inr {(0, 0, 0), (- 1, 1, 0), (0, 1, - 1), (1, 0, - 1), (1, - 1, 0), (0, - 1, 1), (- 1, 0, 1)}"
  by (simp add: cube_visible_def upto.simps ring_1 visible_step_def line_unit bind_def) blast

theorem visible_monotone_witness:
  "{} \<subseteq> {(1, 0, - 1) :: cube_hex}
   \<and> cube_visible (0, 0, 0) 1 {(1, 0, - 1)} =
       Inr {(0, 0, 0), (- 1, 1, 0), (0, 1, - 1), (1, - 1, 0), (0, - 1, 1), (- 1, 0, 1)}
   \<and> (\<exists>V'. cube_visible (0, 0, 0) 1 {} = Inr V'
         \<and> {(0, 0, 0), (- 1, 1, 0), (0, 1, - 1), (1, - 1, 0), (0, - 1, 1), (- 1, 0, 1)} \<subseteq> V')"
proof -
  have sub: "{} \<subseteq> {(1, 0, - 1) :: cube_hex}" by simp
  from visible_monotone [OF sub, of "(0, 0, 0)" 1] show ?thesis
    by (simp add: visible_example_blocked)
qed


subsection \<open>Neighbours and distance\<close>


lemma cube_neighbors_eq: "cube_neighbors (q, r, s) =
   [(q + 1, r, s - 1), (q + 1, r - 1, s), (q, r - 1, s + 1),
    (q - 1, r, s + 1), (q - 1, r + 1, s), (q, r + 1, s - 1)]"
  by (simp add: cube_neighbors_def upto_0_5 dir_simps)

lemma zero_sum_neighbor: "zero_sum h \<Longrightarrow> n \<in> set (cube_neighbors h) \<Longrightarrow> zero_sum n"
  by (cases h) (auto simp: cube_neighbors_eq zero_sum_def)






subsection \<open>Shortest path: what a returned result means\<close>

text \<open>What the inner loop over the neighbours does to the frontier and the predecessor map.\<close>

lemma path_visit_fold:
  assumes "fold (path_visit obs c) ns (Q, cf) = (Q', cf')"
  shows "\<exists>new. Q' = Q @ new \<and> set new \<subseteq> set ns - obs - dom cf \<and> distinct new
           \<and> dom cf' = dom cf \<union> set new
           \<and> (\<forall>n \<in> set new. cf' n = Some (Some c))
           \<and> (\<forall>h. h \<notin> set new \<longrightarrow> cf' h = cf h)
           \<and> (\<forall>n \<in> set ns. n \<notin> obs \<longrightarrow> n \<in> dom cf')"
  using assms
proof (induction ns arbitrary: Q cf)
  case Nil
  then show ?case by auto
next
  case (Cons n ns)
  show ?case
  proof (cases "n \<notin> obs \<and> cf n = None")
    case True
    then have "path_visit obs c n (Q, cf) = (Q @ [n], cf(n \<mapsto> Some c))"
      by (simp add: path_visit_def)
    with Cons.prems have "fold (path_visit obs c) ns (Q @ [n], cf(n \<mapsto> Some c)) = (Q', cf')"
      by simp
    from Cons.IH [OF this] obtain new where new: "Q' = (Q @ [n]) @ new"
      "set new \<subseteq> set ns - obs - dom (cf(n \<mapsto> Some c))" "distinct new"
      "dom cf' = dom (cf(n \<mapsto> Some c)) \<union> set new"
      "\<forall>m \<in> set new. cf' m = Some (Some c)"
      "\<forall>h. h \<notin> set new \<longrightarrow> cf' h = (cf(n \<mapsto> Some c)) h"
      "\<forall>m \<in> set ns. m \<notin> obs \<longrightarrow> m \<in> dom cf'"
      by blast
    have "n \<notin> set new" using new(2) by auto
    show ?thesis
    proof (intro exI [of _ "n # new"] conjI)
      show "Q' = Q @ n # new" using new(1) by simp
      show "set (n # new) \<subseteq> set (n # ns) - obs - dom cf" using new(2) True by auto
      show "distinct (n # new)" using new(3) \<open>n \<notin> set new\<close> by simp
      show "dom cf' = dom cf \<union> set (n # new)" using new(4) by auto
      have "cf' n = (cf(n \<mapsto> Some c)) n" using new(6) \<open>n \<notin> set new\<close> by blast
      then have "cf' n = Some (Some c)" by simp
      then show "\<forall>m \<in> set (n # new). cf' m = Some (Some c)"
        using new(5) by (metis set_ConsD)
      show "\<forall>h. h \<notin> set (n # new) \<longrightarrow> cf' h = cf h"
      proof (intro allI impI)
        fix h assume "h \<notin> set (n # new)"
        then have "h \<notin> set new" "h \<noteq> n" by auto
        then have "cf' h = (cf(n \<mapsto> Some c)) h" using new(6) by blast
        then show "cf' h = cf h" using \<open>h \<noteq> n\<close> by simp
      qed
      show "\<forall>m \<in> set (n # ns). m \<notin> obs \<longrightarrow> m \<in> dom cf'" using new(4) new(7) by auto
    qed
  next
    case False
    then have "path_visit obs c n (Q, cf) = (Q, cf)"
      by (auto simp: path_visit_def)
    with Cons.prems have "fold (path_visit obs c) ns (Q, cf) = (Q', cf')"
      by simp
    from Cons.IH [OF this] obtain new where new: "Q' = Q @ new"
      "set new \<subseteq> set ns - obs - dom cf" "distinct new"
      "dom cf' = dom cf \<union> set new"
      "\<forall>m \<in> set new. cf' m = Some (Some c)"
      "\<forall>h. h \<notin> set new \<longrightarrow> cf' h = cf h"
      "\<forall>m \<in> set ns. m \<notin> obs \<longrightarrow> m \<in> dom cf'"
      by blast
    show ?thesis
    proof (intro exI [of _ new] conjI)
      show "set new \<subseteq> set (n # ns) - obs - dom cf" using new(2) by auto
      show "\<forall>m \<in> set (n # ns). m \<notin> obs \<longrightarrow> m \<in> dom cf'"
        using new(4) new(7) False by auto
    qed (use new in auto)
  qed
qed

lemma chain_extend:
  assumes "chain cf s h l" and "\<And>x. cf x \<noteq> None \<Longrightarrow> cf' x = cf x"
  shows "chain cf' s h l"
  using assms(1)
proof (induction rule: chain.induct)
  case chain_start
  show ?case by (rule chain.chain_start)
next
  case (chain_step h p l)
  then have "cf' h = Some (Some p)" using assms(2) [of h] by simp
  then show ?case using chain_step by (auto intro: chain.chain_step)
qed

lemma path_inv_init: "path_inv s obs [s] [s \<mapsto> None]"
  by (auto simp: path_inv_def intro: chain.intros split: if_splits)

lemma path_inv_step:
  assumes inv: "path_inv s obs (c # rest) cf"
    and fold: "fold (path_visit obs c) (cube_neighbors c) (rest, cf) = (Q', cf')"
  shows "path_inv s obs Q' cf'"
proof -
  from path_visit_fold [OF fold] obtain new where new: "Q' = rest @ new"
      "set new \<subseteq> set (cube_neighbors c) - obs - dom cf" "distinct new"
      "dom cf' = dom cf \<union> set new"
      "\<forall>m \<in> set new. cf' m = Some (Some c)"
      "\<forall>h. h \<notin> set new \<longrightarrow> cf' h = cf h"
      "\<forall>m \<in> set (cube_neighbors c). m \<notin> obs \<longrightarrow> m \<in> dom cf'"
    by blast
  from inv have cs: "cf s = Some None" and sub: "set (c # rest) \<subseteq> dom cf"
    and par: "\<And>h p. cf h = Some (Some p) \<Longrightarrow> h \<notin> obs \<and> h \<in> set (cube_neighbors p)"
    and ch: "\<And>h. h \<in> dom cf \<Longrightarrow> \<exists>l. chain cf s h l"
    and cl: "\<And>h n. h \<in> dom cf \<Longrightarrow> h \<notin> set (c # rest) \<Longrightarrow> n \<in> set (cube_neighbors h)
               \<Longrightarrow> n \<notin> obs \<Longrightarrow> n \<in> dom cf"
    by (auto simp: path_inv_def)
  have old: "cf' x = cf x" if "cf x \<noteq> None" for x
    using that new(2) new(6) by (metis DiffD2 domIff subsetD)
  have cdom: "c \<in> dom cf" using sub by simp
  have 1: "cf' s = Some None" using old [of s] cs by simp
  have 2: "set Q' \<subseteq> dom cf'" using new(1) new(4) sub by auto
  have 3: "h \<notin> obs \<and> h \<in> set (cube_neighbors p)" if "cf' h = Some (Some p)" for h p
  proof (cases "h \<in> set new")
    case True
    then have "p = c" using new(5) that by auto
    with True new(2) show ?thesis by auto
  next
    case False
    then have "cf' h = cf h" using new(6) by blast
    then have "cf h = Some (Some p)" using that by simp
    then show ?thesis by (rule par)
  qed
  have 4: "\<exists>l. chain cf' s h l" if "h \<in> dom cf'" for h
  proof (cases "h \<in> set new")
    case True
    from ch [OF cdom] obtain l where "chain cf s c l" ..
    then have "chain cf' s c l" using old by (rule chain_extend)
    moreover have "cf' h = Some (Some c)" using True new(5) by simp
    moreover have "h \<noteq> s" using True new(2) cs by auto
    ultimately show ?thesis by (auto intro: chain.chain_step)
  next
    case False
    then have "h \<in> dom cf" using that new(4) by auto
    from ch [OF this] obtain l where "chain cf s h l" ..
    then have "chain cf' s h l" using old by (rule chain_extend)
    then show ?thesis ..
  qed
  have 5: "n \<in> dom cf'" if "h \<in> dom cf'" "h \<notin> set Q'" "n \<in> set (cube_neighbors h)" "n \<notin> obs" for h n
  proof (cases "h = c")
    case True
    then show ?thesis using new(7) that by simp
  next
    case False
    from that new(1) new(4) have "h \<in> dom cf" "h \<notin> set rest" by auto
    with False that have "n \<in> dom cf" using cl [of h n] by simp
    then show ?thesis using new(4) by simp
  qed
  show ?thesis
    unfolding path_inv_def using 1 2 3 4 5 by blast
qed

lemma path_search_inv:
  assumes "path_search g obs Q cf = Some r" and "path_inv s obs Q cf"
  shows "\<exists>Qf. path_inv s obs Qf r \<and> (Qf = [] \<or> hd Qf = g)"
  using assms
proof (induction g obs Q cf r rule: path_search.raw_induct [rotated 1, consumes 1])
  case (1 search g obs Q cf r)
  note IH = 1(1) and eq = 1(2) and inv = 1(3)
  show ?case
  proof (cases Q)
    case Nil
    with eq inv show ?thesis by auto
  next
    case (Cons c rest)
    show ?thesis
    proof (cases "c = g")
      case True
      with eq inv Cons show ?thesis by auto
    next
      case False
      obtain Q' cf' where f: "fold (path_visit obs c) (cube_neighbors c) (rest, cf) = (Q', cf')"
        by (cases "fold (path_visit obs c) (cube_neighbors c) (rest, cf)")
      with eq Cons False have "search g obs Q' cf' = Some r" by simp
      moreover have "path_inv s obs Q' cf'"
        using inv f unfolding Cons by (rule path_inv_step)
      ultimately show ?thesis by (rule IH)
    qed
  qed
qed

lemma walk_back_chain:
  assumes "chain cf s h l"
  shows "walk_back s cf h acc = Some (Inr (acc @ l @ [s]))"
  using assms
proof (induction arbitrary: acc rule: chain.induct)
  case chain_start
  show ?case by (subst walk_back.simps) simp
next
  case (chain_step h p l)
  show ?case
    by (subst walk_back.simps) (simp add: chain_step)
qed

lemma chain_hd: "chain cf s h l \<Longrightarrow> hd (l @ [s]) = h"
  by (induction rule: chain.induct) auto

lemma path_ok_snoc:
  "path_ok obs xs \<Longrightarrow> xs \<noteq> [] \<Longrightarrow> y \<in> set (cube_neighbors (last xs)) \<Longrightarrow> y \<notin> obs
     \<Longrightarrow> path_ok obs (xs @ [y])"
  by (induction obs xs rule: path_ok.induct) auto

lemma chain_path_ok:
  assumes "chain cf s h l"
    and "\<And>h p. cf h = Some (Some p) \<Longrightarrow> h \<notin> obs \<and> h \<in> set (cube_neighbors p)"
  shows "path_ok obs (rev (l @ [s]))"
  using assms(1)
proof (induction rule: chain.induct)
  case chain_start
  show ?case by simp
next
  case (chain_step h p l)
  have "last (rev (l @ [s])) = hd (l @ [s])" by (rule last_rev)
  then have "last (rev (l @ [s])) = p"
    using chain_hd [OF chain_step(3)] by (simp only:)
  moreover have "h \<notin> obs \<and> h \<in> set (cube_neighbors p)" using chain_step(1) by (rule assms(2))
  ultimately have "path_ok obs (rev (l @ [s]) @ [h])"
    using chain_step.IH by (intro path_ok_snoc) auto
  then show ?case by simp
qed

lemma path_ok_tl: "path_ok obs q \<Longrightarrow> set (tl q) \<inter> obs = {}"
  by (induction obs q rule: path_ok.induct) auto

lemma closed_reach:
  assumes "path_ok obs p" "p \<noteq> []" "hd p \<in> S"
    and "\<And>h n. h \<in> S \<Longrightarrow> n \<in> set (cube_neighbors h) \<Longrightarrow> n \<notin> obs \<Longrightarrow> n \<in> S"
  shows "last p \<in> S"
  using assms(1-3)
proof (induction p)
  case Nil
  then show ?case by simp
next
  case (Cons x r)
  show ?case
  proof (cases r)
    case Nil
    with Cons.prems show ?thesis by simp
  next
    case (Cons y r')
    with Cons.prems have x: "x \<in> S" and y: "y \<in> set (cube_neighbors x)" "y \<notin> obs"
      and ok: "path_ok obs r" by simp_all
    from assms(4) [OF x y] have "hd r \<in> S" using Cons by simp
    with Cons.IH ok have "last r \<in> S" using Cons by simp
    then show ?thesis using Cons by simp
  qed
qed

text \<open>
  Whatever \<^verbatim>\<open>cube_path\<close> returns is right: it never raises; when it returns "no path", no
  path from start to goal exists whose every step enters a neighbouring hex that is not an
  obstacle; when it returns a path, the path runs from start to goal, every step enters
  a neighbouring hex that is not an obstacle, and so no hex after the first is an
  obstacle. The start itself is never checked against the obstacle set. Whether the call
  returns at all is a separate matter, settled below.
\<close>

lemma cube_path_result:
  "(\<forall>e. cube_path s g obs \<noteq> Some (Inl e))
   \<and> (cube_path s g obs = Some (Inr None) \<longrightarrow>
        \<not> (\<exists>p. p \<noteq> [] \<and> hd p = s \<and> last p = g \<and> path_ok obs p))
   \<and> (cube_path s g obs = Some (Inr (Some p)) \<longrightarrow>
        p \<noteq> [] \<and> hd p = s \<and> last p = g \<and> path_ok obs p \<and> set (tl p) \<inter> obs = {})"
proof (cases "path_search g obs [s] [s \<mapsto> None]")
  case None
  then show ?thesis by (simp add: cube_path_def)
next
  case (Some cf)
  from path_search_inv [OF Some path_inv_init] obtain Qf
    where inv: "path_inv s obs Qf cf" and Qf: "Qf = [] \<or> hd Qf = g" by blast
  from inv have par: "\<And>h p. cf h = Some (Some p) \<Longrightarrow> h \<notin> obs \<and> h \<in> set (cube_neighbors p)"
    and ch: "\<And>h. h \<in> dom cf \<Longrightarrow> \<exists>l. chain cf s h l"
    and sdom: "s \<in> dom cf" and sub: "set Qf \<subseteq> dom cf"
    and cl: "\<And>h n. h \<in> dom cf \<Longrightarrow> h \<notin> set Qf \<Longrightarrow> n \<in> set (cube_neighbors h)
               \<Longrightarrow> n \<notin> obs \<Longrightarrow> n \<in> dom cf"
    by (auto simp: path_inv_def)
  show ?thesis
  proof (cases "cf g = None")
    case True
    have "Qf = []"
    proof (rule ccontr)
      assume "Qf \<noteq> []"
      with Qf have "g \<in> set Qf" by (metis hd_in_set)
      with sub True show False by auto
    qed
    have "last p \<in> dom cf" if "path_ok obs p" "p \<noteq> []" "hd p = s" for p
      using that(1,2) proof (rule closed_reach)
      show "hd p \<in> dom cf" using that sdom by simp
    next
      fix h n assume "h \<in> dom cf" "n \<in> set (cube_neighbors h)" "n \<notin> obs"
      then show "n \<in> dom cf" using cl [of h n] \<open>Qf = []\<close> by simp
    qed
    with True have "\<not> (\<exists>p. p \<noteq> [] \<and> hd p = s \<and> last p = g \<and> path_ok obs p)" by auto
    with True Some show ?thesis by (simp add: cube_path_def)
  next
    case False
    then have "g \<in> dom cf" by auto
    from ch [OF this] obtain l where l: "chain cf s g l" ..
    have w: "walk_back s cf g [] = Some (Inr (l @ [s]))"
      using walk_back_chain [OF l, of "[]"] by simp
    have res: "cube_path s g obs = Some (Inr (Some (rev (l @ [s]))))"
      using Some False w by (simp add: cube_path_def)
    have ok: "path_ok obs (rev (l @ [s]))" using l par by (rule chain_path_ok)
    have "last (rev (l @ [s])) = hd (l @ [s])" by (rule last_rev)
    then have lst: "last (rev (l @ [s])) = g" using chain_hd [OF l] by (simp only:)
    have tl: "set (tl (rev (l @ [s]))) \<inter> obs = {}"
      using ok by (rule path_ok_tl)
    show ?thesis
      unfolding res using ok lst tl by auto
  qed
qed

lemma path_example_open:
  "cube_path (0, 0, 0) (1, 0, - 1) {} = Some (Inr (Some [(0, 0, 0), (1, 0, - 1)]))"
  by (simp add: cube_path_def path_search.simps [of _ _ "_ # _"] walk_back.simps
      cube_neighbors_eq path_visit_def)

lemma path_example_start_obstacle:
  "cube_path (0, 0, 0) (1, 0, - 1) {(0, 0, 0)} = Some (Inr (Some [(0, 0, 0), (1, 0, - 1)]))"
  by (simp add: cube_path_def path_search.simps [of _ _ "_ # _"] walk_back.simps
      cube_neighbors_eq path_visit_def)

lemma path_example_enclosed:
  "cube_path (0, 0, 0) (2, 0, - 2)
     {(1, 0, - 1), (1, - 1, 0), (0, - 1, 1), (- 1, 0, 1), (- 1, 1, 0), (0, 1, - 1)} = Some (Inr None)"
  by (simp add: cube_path_def path_search.simps [of _ _ "_ # _"] path_search.simps [of _ _ "[]"]
      cube_neighbors_eq path_visit_def)

text \<open>
  With the start in the obstacle set the search still returns a path, and that path
  contains an obstacle hex, the start.
\<close>

lemma cube_path_start_obstacle:
  "cube_path (0, 0, 0) (1, 0, - 1) {(0, 0, 0)} = Some (Inr (Some [(0, 0, 0), (1, 0, - 1)]))
   \<and> set [(0, 0, 0), (1, 0, - 1)] \<inter> {(0, 0, 0) :: cube_hex} \<noteq> {}"
  by (simp add: path_example_start_obstacle)

lemma cube_path_result_examples:
  "cube_path (0, 0, 0) (1, 0, - 1) {} = Some (Inr (Some [(0, 0, 0), (1, 0, - 1)]))
   \<and> hd [(0, 0, 0), (1, 0, - 1)] = ((0, 0, 0) :: cube_hex)
   \<and> last [(0, 0, 0), (1, 0, - 1)] = ((1, 0, - 1) :: cube_hex)
   \<and> path_ok {} [(0, 0, 0), (1, 0, - 1)]
   \<and> cube_path (0, 0, 0) (2, 0, - 2)
        {(1, 0, - 1), (1, - 1, 0), (0, - 1, 1), (- 1, 0, 1), (- 1, 1, 0), (0, 1, - 1)} = Some (Inr None)
   \<and> \<not> (\<exists>p. p \<noteq> [] \<and> hd p = (0, 0, 0) \<and> last p = (2, 0, - 2)
          \<and> path_ok {(1, 0, - 1), (1, - 1, 0), (0, - 1, 1), (- 1, 0, 1), (- 1, 1, 0), (0, 1, - 1)} p)"
proof -
  note a = cube_path_result [of "(0, 0, 0)" "(1, 0, - 1)" "{}" "[(0, 0, 0), (1, 0, - 1)]"]
  note b = cube_path_result [of "(0, 0, 0)" "(2, 0, - 2)"
      "{(1, 0, - 1), (1, - 1, 0), (0, - 1, 1), (- 1, 0, 1), (- 1, 1, 0), (0, 1, - 1)}" "[]"]
  from a have "path_ok {} [(0, 0, 0), (1, 0, - 1)]" using path_example_open by blast
  moreover from b have "\<not> (\<exists>p. p \<noteq> [] \<and> hd p = (0, 0, 0) \<and> last p = (2, 0, - 2)
          \<and> path_ok {(1, 0, - 1), (1, - 1, 0), (0, - 1, 1), (- 1, 0, 1), (- 1, 1, 0), (0, 1, - 1)} p)"
    using path_example_enclosed by blast
  ultimately show ?thesis
    using path_example_open path_example_enclosed by simp
qed

subsection \<open>Shortest path: a goal that is an obstacle\<close>

text \<open>
  With the goal as the only obstacle, the goal is never enqueued, so the loop can only end
  with an empty frontier. It never does: among the hexes discovered so far take one with
  the largest \<open>q\<close>; two of its neighbours have a larger \<open>q\<close>, at most one of them is the
  goal, and the other is still to be discovered.
\<close>

lemma frontier_nonempty:
  assumes inv: "path_inv s {g} Q cf" and fin: "finite (dom cf)"
  shows "Q \<noteq> []"
proof
  assume Q: "Q = []"
  from inv have sdom: "s \<in> dom cf" unfolding path_inv_def by blast
  from inv have cl: "\<And>h n. h \<in> dom cf \<Longrightarrow> n \<in> set (cube_neighbors h) \<Longrightarrow> n \<noteq> g \<Longrightarrow> n \<in> dom cf"
    unfolding path_inv_def Q by simp
  let ?A = "fst ` dom cf"
  have fA: "finite ?A" using fin by (rule finite_imageI)
  have nA: "?A \<noteq> {}" using sdom by blast
  from fA nA have "Max ?A \<in> ?A" by (rule Max_in)
  then obtain x where x: "x \<in> dom cf" "fst x = Max ?A" by force
  obtain q r t where xe: "x = (q, r, t)" by (cases x)
  have top: "fst y \<le> q" if "y \<in> dom cf" for y
  proof -
    from that have "fst y \<in> ?A" by (rule imageI)
    with fA have "fst y \<le> Max ?A" by (rule Max_ge)
    then show ?thesis using x(2) xe by simp
  qed
  have n1: "(q + 1, r, t - 1) \<in> set (cube_neighbors x)"
    and n2: "(q + 1, r - 1, t) \<in> set (cube_neighbors x)"
    unfolding xe cube_neighbors_eq by simp_all
  have "(q + 1, r, t - 1) \<noteq> g \<or> (q + 1, r - 1, t) \<noteq> g" by auto
  then show False
  proof
    assume "(q + 1, r, t - 1) \<noteq> g"
    with x(1) n1 have "(q + 1, r, t - 1) \<in> dom cf" by (rule cl)
    from top [OF this] show False by simp
  next
    assume "(q + 1, r - 1, t) \<noteq> g"
    with x(1) n2 have "(q + 1, r - 1, t) \<in> dom cf" by (rule cl)
    from top [OF this] show False by simp
  qed
qed

lemma path_search_goal_obstacle:
  assumes "path_search g obs Q cf = Some r" and "obs = {g}" and "path_inv s obs Q cf"
    and "finite (dom cf)" and "g \<notin> dom cf"
  shows False
  using assms
proof (induction g obs Q cf r rule: path_search.raw_induct [rotated 1, consumes 1])
  case (1 search g obs Q cf r)
  note IH = 1(1) and eq = 1(2) and obs = 1(3) and inv = 1(4) and fin = 1(5) and g = 1(6)
  from inv have sub: "set Q \<subseteq> dom cf" unfolding path_inv_def by blast
  show ?case
  proof (cases Q)
    case Nil
    with frontier_nonempty [OF inv [unfolded obs] fin] show False by simp
  next
    case (Cons c rest)
    have cg: "c \<noteq> g" using sub g Cons by auto
    obtain Q' cf' where f: "fold (path_visit obs c) (cube_neighbors c) (rest, cf) = (Q', cf')"
      by (cases "fold (path_visit obs c) (cube_neighbors c) (rest, cf)")
    from path_visit_fold [OF f] obtain new where
      new: "set new \<subseteq> set (cube_neighbors c) - obs - dom cf" "dom cf' = dom cf \<union> set new"
      by blast
    from eq Cons cg f have "search g obs Q' cf' = Some r" by simp
    moreover note obs
    moreover have "path_inv s obs Q' cf'"
      using inv f unfolding Cons by (rule path_inv_step)
    moreover have "finite (dom cf')" using fin new(2) by simp
    moreover have "g \<notin> dom cf'" using g new obs by auto
    ultimately show False by (rule IH)
  qed
qed

text \<open>
  C4. The claim that \<^verbatim>\<open>cube_path\<close> returns the no-path result when the goal is itself an
  obstacle fails in the code: for every start other than the goal, with the goal as the
  only obstacle, the call never returns (the value \<open>None\<close> of the partial function), so
  the statement \<^verbatim>\<open>return None\<close> written for this case is never reached.
\<close>

theorem cube_path_goal_obstacle_diverges:
  assumes "s \<noteq> g"
  shows "cube_path s g {g} = None"
proof (cases "path_search g {g} [s] [s \<mapsto> None]")
  case None
  then show ?thesis by (simp add: cube_path_def)
next
  case (Some r)
  moreover have "{g} = {g}" ..
  moreover have "path_inv s {g} [s] [s \<mapsto> None]" by (rule path_inv_init)
  moreover have "finite (dom [s \<mapsto> (None :: cube_hex option)])" by simp
  moreover have "g \<notin> dom [s \<mapsto> (None :: cube_hex option)]" using assms by simp
  ultimately have False by (rule path_search_goal_obstacle)
  then show ?thesis ..
qed

theorem cube_path_goal_obstacle_diverges_witness:
  "(0, 0, 0) \<noteq> ((1, 0, - 1) :: cube_hex)
   \<and> cube_path (0, 0, 0) (1, 0, - 1) {(1, 0, - 1)} = None"
  using cube_path_goal_obstacle_diverges [of "(0, 0, 0)" "(1, 0, - 1)"] by simp

subsection \<open>Breadth-first search without obstacles\<close>


















subsection \<open>The zero-sum invariant\<close>

lemma zero_sum_arith:
  assumes "zero_sum a" "zero_sum b"
  shows "zero_sum (cube_add a b)" "zero_sum (cube_subtract a b)" "zero_sum (cube_scale a k)"
    "zero_sum (cube_rotate_left a)" "zero_sum (cube_rotate_right a)"
proof -
  obtain a0 a1 a2 where a: "a = (a0, a1, a2)" by (cases a)
  obtain b0 b1 b2 where b: "b = (b0, b1, b2)" by (cases b)
  from assms have sa: "a0 + a1 + a2 = 0" and sb: "b0 + b1 + b2 = 0"
    by (simp_all add: a b zero_sum_def)
  show "zero_sum (cube_add a b)" using sa sb by (simp add: a b zero_sum_def)
  show "zero_sum (cube_subtract a b)" using sa sb by (simp add: a b zero_sum_def)
  have "a0 * k + a1 * k + a2 * k = (a0 + a1 + a2) * k" by (simp add: algebra_simps)
  then show "zero_sum (cube_scale a k)" using sa by (simp add: a zero_sum_def)
  show "zero_sum (cube_rotate_left a)" using sa by (simp add: a zero_sum_def)
  show "zero_sum (cube_rotate_right a)" using sa by (simp add: a zero_sum_def)
qed

lemma cube_neighbor_in_neighbors: "cube_neighbor h d \<in> set (cube_neighbors h)"
proof -
  have "d mod 6 \<in> set [0..5]" by simp
  then have "cube_neighbor h (d mod 6) \<in> set (cube_neighbors h)"
    unfolding cube_neighbors_def by (simp only: set_map image_eqI)
  then show ?thesis by (simp add: cube_neighbor_def)
qed

lemma zero_sum_cube_neighbor: "zero_sum h \<Longrightarrow> zero_sum (cube_neighbor h d)"
  by (rule zero_sum_neighbor [OF _ cube_neighbor_in_neighbors])

lemma zero_sum_direction: "zero_sum (CUBE_DIRECTIONS ! 4)"
  by (simp add: CUBE_DIRECTIONS_def zero_sum_def)

lemma zero_sum_ring_side:
  "zero_sum (fst st) \<Longrightarrow> \<forall>h \<in> set (snd st). zero_sum h \<Longrightarrow>
   zero_sum (fst (ring_side i n st)) \<and> (\<forall>h \<in> set (snd (ring_side i n st)). zero_sum h)"
proof (induction n arbitrary: st)
  case 0
  then show ?case by simp
next
  case (Suc n)
  have "zero_sum (fst (cube_neighbor (fst st) i, snd st @ [fst st]))"
    using Suc.prems(1) by (simp add: zero_sum_cube_neighbor)
  moreover have "\<forall>h \<in> set (snd (cube_neighbor (fst st) i, snd st @ [fst st])). zero_sum h"
    using Suc.prems by simp
  ultimately show ?case unfolding ring_side.simps by (rule Suc.IH)
qed

lemma zero_sum_ring_sides:
  "zero_sum (fst st) \<Longrightarrow> \<forall>h \<in> set (snd st). zero_sum h \<Longrightarrow>
   zero_sum (fst (fold (\<lambda>i st. ring_side i n st) is st))
   \<and> (\<forall>h \<in> set (snd (fold (\<lambda>i st. ring_side i n st) is st)). zero_sum h)"
proof (induction "is" arbitrary: st)
  case Nil
  then show ?case by simp
next
  case (Cons i "is")
  from zero_sum_ring_side [OF Cons.prems, of i n]
  show ?case unfolding fold_simps by (intro Cons.IH) simp_all
qed

lemma zero_sum_cube_ring:
  assumes "zero_sum c" and "h \<in> set (cube_ring c radius)"
  shows "zero_sum h"
proof (cases "radius = 0")
  case True
  with assms show ?thesis by (simp add: cube_ring_def)
next
  case False
  let ?st = "(cube_add c (cube_scale (CUBE_DIRECTIONS ! 4) radius), [] :: cube_hex list)"
  have "zero_sum (fst ?st)"
    using assms(1) zero_sum_direction by (simp add: zero_sum_arith)
  moreover have "\<forall>h \<in> set (snd ?st). zero_sum h" by simp
  ultimately have "\<forall>h \<in> set (snd (fold (\<lambda>i st. ring_side i (nat radius) st) [0..5] ?st)). zero_sum h"
    using zero_sum_ring_sides by blast
  with assms(2) False show ?thesis by (simp add: cube_ring_def)
qed

lemma zero_sum_cube_spiral:
  assumes "zero_sum c" and "h \<in> set (cube_spiral c radius)"
  shows "zero_sum h"
  using assms unfolding cube_spiral_concat by (auto intro: zero_sum_cube_ring)

lemma zero_sum_cube_round:
  assumes "cube_round f = Inr h"
  shows "zero_sum h"
proof -
  obtain f0 f1 f2 where f: "f = (f0, f1, f2)" by (cases f)
  from assms show ?thesis
    unfolding f cube_round.simps bind_def Let_def
    by (auto simp: zero_sum_def split: sum.splits if_splits)
qed

lemma zero_sum_line_sample:
  assumes "line_sample an bn N i = Inr h"
  shows "zero_sum h"
proof -
  from assms obtain f where "cube_round f = Inr h"
    unfolding line_sample_def bind_def
    by (auto split: sum.splits prod.splits simp del: cube_round.simps)
  then show ?thesis by (rule zero_sum_cube_round)
qed

lemma zero_sum_line_loop:
  "line_loop an bn N is acc = Inr l \<Longrightarrow> \<forall>h \<in> set acc. zero_sum h \<Longrightarrow> \<forall>h \<in> set l. zero_sum h"
proof (induction "is" arbitrary: acc)
  case Nil
  then show ?case by simp
next
  case (Cons i "is")
  from Cons.prems(1) obtain x where x: "line_sample an bn N i = Inr x"
    and r: "line_loop an bn N is (acc @ [x]) = Inr l"
    by (auto simp: bind_def split: sum.splits)
  from x have "zero_sum x" by (rule zero_sum_line_sample)
  with Cons.prems(2) have "\<forall>h \<in> set (acc @ [x]). zero_sum h" by simp
  with r show ?case by (rule Cons.IH)
qed

lemma zero_sum_cube_line:
  assumes "cube_line a b = Inr l" and "h \<in> set l"
  shows "zero_sum h"
proof -
  from assms(1) obtain an bn where "line_loop an bn (cube_distance a b) [0..cube_distance a b] [] = Inr l"
    by (auto simp: cube_line_def bind_def Let_def split: sum.splits)
  then have "\<forall>h \<in> set l. zero_sum h" by (rule zero_sum_line_loop) simp
  with assms(2) show ?thesis by blast
qed

lemma zero_sum_path_ok:
  "path_ok obs p \<Longrightarrow> p \<noteq> [] \<Longrightarrow> zero_sum (hd p) \<Longrightarrow> \<forall>h \<in> set p. zero_sum h"
proof (induction p)
  case Nil
  then show ?case by simp
next
  case (Cons x r)
  show ?case
  proof (cases r)
    case Nil
    with Cons.prems show ?thesis by simp
  next
    case (Cons y r')
    with Cons.prems have ok: "path_ok obs r" and y: "y \<in> set (cube_neighbors x)" and x: "zero_sum x"
      by simp_all
    from x y have "zero_sum y" by (rule zero_sum_neighbor)
    with ok Cons Cons.IH have "\<forall>h \<in> set r. zero_sum h" by simp
    with x show ?thesis by simp
  qed
qed

lemma zero_sum_cube_path:
  assumes "zero_sum s" and "cube_path s g obs = Some (Inr (Some p))" and "h \<in> set p"
  shows "zero_sum h"
proof -
  from cube_path_result [of s g obs p] assms(2)
  have "p \<noteq> []" "hd p = s" "path_ok obs p" by blast+
  with assms(1) have "\<forall>h \<in> set p. zero_sum h" using zero_sum_path_ok by blast
  with assms(3) show ?thesis by blast
qed

lemma zero_sum_bfs_visit:
  assumes "bfs_visit obs md c n (Q, cf, dm) = Inr (Q', cf', dm')"
    and "zero_sum n" and "set Q \<subseteq> dom dm" and "\<forall>h \<in> dom dm. zero_sum h"
  shows "set Q' \<subseteq> dom dm' \<and> (\<forall>h \<in> dom dm'. zero_sum h)"
  using assms unfolding bfs_visit_def
  by (auto split: if_splits option.splits)

lemma zero_sum_bfs_fold:
  assumes "fold_err (bfs_visit obs md c) ns st = Inr st'"
    and "\<forall>n \<in> set ns. zero_sum n"
    and "set (fst st) \<subseteq> dom (snd (snd st))" and "\<forall>h \<in> dom (snd (snd st)). zero_sum h"
  shows "set (fst st') \<subseteq> dom (snd (snd st')) \<and> (\<forall>h \<in> dom (snd (snd st')). zero_sum h)"
  using assms
proof (induction ns arbitrary: st)
  case Nil
  then show ?case by simp
next
  case (Cons n ns)
  obtain Q cf dm where st: "st = (Q, cf, dm)" by (cases st)
  from Cons.prems(1) obtain st1 where s1: "bfs_visit obs md c n st = Inr st1"
    and r: "fold_err (bfs_visit obs md c) ns st1 = Inr st'"
    by (auto simp: bind_def split: sum.splits)
  obtain Q1 cf1 dm1 where st1: "st1 = (Q1, cf1, dm1)" by (cases st1)
  have "zero_sum n" using Cons.prems(2) by simp
  with s1 [unfolded st st1] have "set Q1 \<subseteq> dom dm1 \<and> (\<forall>h \<in> dom dm1. zero_sum h)"
    using Cons.prems(3,4) unfolding st by (intro zero_sum_bfs_visit) simp_all
  then have "set (fst st1) \<subseteq> dom (snd (snd st1))" "\<forall>h \<in> dom (snd (snd st1)). zero_sum h"
    unfolding st1 by simp_all
  moreover have "\<forall>n \<in> set ns. zero_sum n" using Cons.prems(2) by simp
  ultimately show ?case using r Cons.IH by blast
qed

lemma zero_sum_bfs_search:
  assumes "bfs_search goals obs md Q cf dm found = Some (Inr res)"
    and "set Q \<subseteq> dom dm" and "\<forall>h \<in> dom dm. zero_sum h"
  shows "\<forall>h \<in> dom res. zero_sum h"
proof -
  have "\<forall>res. out = Inr res \<longrightarrow> (\<forall>h \<in> dom res. zero_sum h)"
    if "bfs_search goals obs md Q cf dm found = Some out" for out
    using that assms(2,3)
  proof (induction goals obs md Q cf dm found out
      rule: bfs_search.raw_induct [rotated 1, consumes 1])
    case (1 search goals obs md Q cf dm found out)
    note IH = 1(1) and eq = 1(2) and sub = 1(3) and z = 1(4)
    show ?case
    proof (cases Q)
      case Nil
      with eq z show ?thesis by auto
    next
      case (Cons c rest)
      let ?found = "if c \<in> goals then insert c found else found"
      show ?thesis
      proof (cases "c \<in> goals \<and> card ?found = card goals")
        case True
        with eq Cons z show ?thesis by (auto simp: Let_def)
      next
        case False
        show ?thesis
        proof (cases "fold_err (bfs_visit obs md c) (cube_neighbors c) (rest, cf, dm)")
          case (Inl e)
          with eq Cons False show ?thesis by (auto simp: Let_def)
        next
          case (Inr st')
          obtain Q' cf' dm' where st': "st' = (Q', cf', dm')" by (cases st')
          have zc: "zero_sum c" using sub z Cons by auto
          then have "\<forall>n \<in> set (cube_neighbors c). zero_sum n"
            using zero_sum_neighbor by blast
          moreover have "set (fst (rest, cf, dm)) \<subseteq> dom (snd (snd (rest, cf, dm)))"
            using sub Cons by simp
          moreover have "\<forall>h \<in> dom (snd (snd (rest, cf, dm))). zero_sum h" using z by simp
          ultimately have "set (fst st') \<subseteq> dom (snd (snd st'))
              \<and> (\<forall>h \<in> dom (snd (snd st')). zero_sum h)"
            using Inr by (intro zero_sum_bfs_fold)
          then have a: "set Q' \<subseteq> dom dm'" and b: "\<forall>h \<in> dom dm'. zero_sum h"
            unfolding st' by simp_all
          from eq Cons False Inr st' have "search goals obs md Q' cf' dm' ?found = Some out"
            by (simp add: Let_def)
          then show ?thesis using a b by (rule IH)
        qed
      qed
    qed
  qed
  with assms(1) show ?thesis by blast
qed

lemma zero_sum_cube_bfs:
  assumes "zero_sum s" and "cube_bfs s goals obs md = Some (Inr dm)" and "h \<in> dom dm"
  shows "zero_sum h"
proof -
  from assms(2) have "bfs_search goals obs md [s] [s \<mapsto> None] [s \<mapsto> 0] {} = Some (Inr dm)"
    by (simp add: cube_bfs_def)
  moreover have "set [s] \<subseteq> dom [s \<mapsto> (0::int)]" by simp
  moreover have "\<forall>h \<in> dom [s \<mapsto> (0::int)]. zero_sum h" using assms(1) by simp
  ultimately have "\<forall>h \<in> dom dm. zero_sum h" by (rule zero_sum_bfs_search)
  with assms(3) show ?thesis by blast
qed

text \<open>
  C8. Every cube-space operation keeps \<open>q + r + s = 0\<close>: for zero-sum inputs, the results
  of \<^verbatim>\<open>cube_add\<close>, \<^verbatim>\<open>cube_subtract\<close>, \<^verbatim>\<open>cube_scale\<close>, \<^verbatim>\<open>cube_rotate_left\<close>,
  \<^verbatim>\<open>cube_rotate_right\<close> and \<^verbatim>\<open>cube_neighbor\<close> are zero-sum, and so is every hex of a ring,
  of a spiral, of a line that \<^verbatim>\<open>cube_line\<close> returns, of a path that \<^verbatim>\<open>cube_path\<close> returns
  and every key of a distance map that \<^verbatim>\<open>cube_bfs\<close> returns (any obstacles, any bound).
  Whatever \<^verbatim>\<open>cube_round\<close> returns, for any triple of numbers, is zero-sum.
\<close>

theorem zero_sum_preserved:
  assumes "zero_sum a" "zero_sum b"
  shows "zero_sum (cube_add a b) \<and> zero_sum (cube_subtract a b) \<and> zero_sum (cube_scale a k)
     \<and> zero_sum (cube_rotate_left a) \<and> zero_sum (cube_rotate_right a)
     \<and> zero_sum (cube_neighbor a d)
     \<and> (\<forall>h \<in> set (cube_ring a radius). zero_sum h)
     \<and> (\<forall>h \<in> set (cube_spiral a radius). zero_sum h)
     \<and> (\<forall>l. cube_line a b = Inr l \<longrightarrow> (\<forall>h \<in> set l. zero_sum h))
     \<and> (\<forall>p. cube_path a b obs = Some (Inr (Some p)) \<longrightarrow> (\<forall>h \<in> set p. zero_sum h))
     \<and> (\<forall>dm. cube_bfs a goals obs md = Some (Inr dm) \<longrightarrow> (\<forall>h \<in> dom dm. zero_sum h))
     \<and> (\<forall>h. cube_round f = Inr h \<longrightarrow> zero_sum h)"
proof (intro conjI allI impI ballI)
  show "zero_sum (cube_add a b)" "zero_sum (cube_subtract a b)" "zero_sum (cube_scale a k)"
    "zero_sum (cube_rotate_left a)" "zero_sum (cube_rotate_right a)"
    using assms by (rule zero_sum_arith)+
  show "zero_sum (cube_neighbor a d)" using assms(1) by (rule zero_sum_cube_neighbor)
next
  fix h assume "h \<in> set (cube_ring a radius)"
  with assms(1) show "zero_sum h" by (rule zero_sum_cube_ring)
next
  fix h assume "h \<in> set (cube_spiral a radius)"
  with assms(1) show "zero_sum h" by (rule zero_sum_cube_spiral)
next
  fix l h assume "cube_line a b = Inr l" "h \<in> set l"
  then show "zero_sum h" by (rule zero_sum_cube_line)
next
  fix p h assume "cube_path a b obs = Some (Inr (Some p))" "h \<in> set p"
  with assms(1) show "zero_sum h" by (rule zero_sum_cube_path)
next
  fix dm h assume "cube_bfs a goals obs md = Some (Inr dm)" "h \<in> dom dm"
  with assms(1) show "zero_sum h" by (rule zero_sum_cube_bfs)
next
  fix h assume "cube_round f = Inr h"
  then show "zero_sum h" by (rule zero_sum_cube_round)
qed

lemma zero_sum_example_line: "cube_line (1, 0, - 1) (0, 1, - 1) = Inr [(1, 0, - 1), (0, 1, - 1)]"
  by (simp add: cube_line_def line_sample_def float_eval upto.simps)

lemma zero_sum_example_path:
  "cube_path (1, 0, - 1) (0, 1, - 1) {} = Some (Inr (Some [(1, 0, - 1), (0, 1, - 1)]))"
  by (simp add: cube_path_def path_search.simps [of _ _ "_ # _"] walk_back.simps
      cube_neighbors_eq path_visit_def)

lemma zero_sum_example_bfs:
  "\<exists>dm. cube_bfs (1, 0, - 1) {(2, 0, - 2)} {} None = Some (Inr dm)
      \<and> dom dm = {(1, 0, - 1), (2, 0, - 2), (2, - 1, - 1), (1, - 1, 0), (0, 0, 0), (0, 1, - 1),
                  (1, 1, - 2)}"
  by (simp add: cube_bfs_def bfs_search.simps [of _ _ _ "_ # _"] bfs_visit_def
      cube_neighbors_eq bind_def Let_def) auto

lemma zero_sum_example_round:
  "cube_round (PyFloat (Finite (1 / 2)), PyFloat (Finite (1 / 4)), PyFloat (Finite (- 3 / 4)))
     = Inr (1, 0, - 1)"
  by (simp add: float_eval)

lemma zero_sum_example_ring:
  "cube_ring (1, 0, - 1) 1 =
     [(0, 1, - 1), (1, 1, - 2), (2, 0, - 2), (2, - 1, - 1), (1, - 1, 0), (0, 0, 0)]"
  by (simp add: cube_ring_def upto_0_5 dir_simps CUBE_DIRECTIONS_def)

theorem zero_sum_preserved_witness:
  "zero_sum (1, 0, - 1) \<and> zero_sum (0, 1, - 1)
   \<and> zero_sum (cube_add (1, 0, - 1) (0, 1, - 1)) \<and> zero_sum (cube_subtract (1, 0, - 1) (0, 1, - 1))
   \<and> zero_sum (cube_scale (1, 0, - 1) 3)
   \<and> zero_sum (cube_rotate_left (1, 0, - 1)) \<and> zero_sum (cube_rotate_right (1, 0, - 1))
   \<and> zero_sum (cube_neighbor (1, 0, - 1) 7)
   \<and> list_all zero_sum (cube_ring (1, 0, - 1) 1) \<and> length (cube_ring (1, 0, - 1) 1) = 6
   \<and> list_all zero_sum (cube_spiral (1, 0, - 1) 1) \<and> length (cube_spiral (1, 0, - 1) 1) = 7
   \<and> cube_line (1, 0, - 1) (0, 1, - 1) = Inr [(1, 0, - 1), (0, 1, - 1)]
   \<and> cube_path (1, 0, - 1) (0, 1, - 1) {} = Some (Inr (Some [(1, 0, - 1), (0, 1, - 1)]))
   \<and> list_all zero_sum [(1, 0, - 1), (0, 1, - 1)]
   \<and> (\<exists>dm. cube_bfs (1, 0, - 1) {(2, 0, - 2)} {} None = Some (Inr dm)
          \<and> (2, 0, - 2) \<in> dom dm \<and> dom dm \<subseteq> Collect zero_sum)
   \<and> cube_round (PyFloat (Finite (1 / 2)), PyFloat (Finite (1 / 4)), PyFloat (Finite (- 3 / 4)))
        = Inr (1, 0, - 1)"
proof -
  have z: "zero_sum (1, 0, - 1)" "zero_sum (0, 1, - 1)" by (simp_all add: zero_sum_def)
  note t = zero_sum_preserved [where a = "(1, 0, - 1)" and b = "(0, 1, - 1)" and k = 3 and d = 7
      and radius = 1 and obs = "{}" and goals = "{(2, 0, - 2)}" and md = None
      and f = "(PyFloat (Finite (1 / 2)), PyFloat (Finite (1 / 4)), PyFloat (Finite (- 3 / 4)))",
      OF z]
  from t have ar: "zero_sum (cube_add (1, 0, - 1) (0, 1, - 1))"
    "zero_sum (cube_subtract (1, 0, - 1) (0, 1, - 1))" "zero_sum (cube_scale (1, 0, - 1) 3)"
    "zero_sum (cube_rotate_left (1, 0, - 1))" "zero_sum (cube_rotate_right (1, 0, - 1))"
    "zero_sum (cube_neighbor (1, 0, - 1) 7)"
    by blast+
  from t have "\<forall>h \<in> set (cube_ring (1, 0, - 1) 1). zero_sum h" by blast
  then have ring: "list_all zero_sum (cube_ring (1, 0, - 1) 1)" unfolding list_all_iff .
  from t have "\<forall>h \<in> set (cube_spiral (1, 0, - 1) 1). zero_sum h" by blast
  then have spiral: "list_all zero_sum (cube_spiral (1, 0, - 1) 1)" unfolding list_all_iff .
  have len: "length (cube_ring (1, 0, - 1) 1) = 6" "length (cube_spiral (1, 0, - 1) 1) = 7"
    by (simp_all add: cube_spiral_concat zero_sum_example_ring upto.simps)
  from t zero_sum_example_line have "\<forall>h \<in> set [(1, 0, - 1), (0, 1, - 1)]. zero_sum h" by blast
  then have line: "list_all zero_sum [(1, 0, - 1), (0, 1, - 1)]" unfolding list_all_iff .
  from zero_sum_example_bfs obtain dm where
    dm: "cube_bfs (1, 0, - 1) {(2, 0, - 2)} {} None = Some (Inr dm)" "(2, 0, - 2) \<in> dom dm"
    by auto
  from t dm(1) have "\<forall>h \<in> dom dm. zero_sum h" by blast
  then have "dom dm \<subseteq> Collect zero_sum" by blast
  with dm have bfs: "\<exists>dm. cube_bfs (1, 0, - 1) {(2, 0, - 2)} {} None = Some (Inr dm)
          \<and> (2, 0, - 2) \<in> dom dm \<and> dom dm \<subseteq> Collect zero_sum" by blast
  from z ar ring spiral len line bfs zero_sum_example_line zero_sum_example_path
    zero_sum_example_round
  show ?thesis by (intro conjI)
qed

subsection \<open>Unrecognised scheme and layout tags\<close>

lemma offset_tag:
  assumes "offset_type \<notin> offset_types"
  shows "offset_type \<noteq> ''odd-r''" "offset_type \<noteq> ''even-r''"
    "offset_type \<noteq> ''odd-q''" "offset_type \<noteq> ''even-q''"
  using assms by (auto simp: offset_types_def)

text \<open>
  C3 (as amended). Every offset operation (distance, neighbour, ring, spiral, line, field
  of view, path) called with a scheme tag outside the four recognised ones raises
  \<^verbatim>\<open>ValueError\<close>, whatever its other arguments. \<^verbatim>\<open>generate_rectangular_map\<close> does not
  raise: it returns the same set as for a recognised tag. \<^verbatim>\<open>hex_to_pixel\<close>,
  \<^verbatim>\<open>pixel_to_hex\<close> and \<^verbatim>\<open>hex_corner_offset\<close> do not reject a layout either: every layout
  other than \<^verbatim>\<open>'pointy'\<close> is treated as \<^verbatim>\<open>'flat'\<close>.
\<close>

theorem unrecognised_tag:
  assumes "offset_type \<notin> offset_types" and "layout \<noteq> ''pointy''"
  shows "offset_distance a b offset_type = Inl ValueError
     \<and> offset_neighbor h direction offset_type = Inl ValueError
     \<and> offset_ring c radius offset_type = Inl ValueError
     \<and> offset_spiral c radius offset_type = Inl ValueError
     \<and> offset_line a b offset_type = Inl ValueError
     \<and> offset_visible c radius obstacles offset_type = Inl ValueError
     \<and> offset_path a b obstacles offset_type = Some (Inl ValueError)
     \<and> (\<exists>hexes. generate_rectangular_map width height offset_type = Inr hexes)
     \<and> generate_rectangular_map width height offset_type
          = generate_rectangular_map width height ''odd-r''
     \<and> hex_to_pixel hex size' layout = hex_to_pixel hex size' ''flat''
     \<and> pixel_to_hex point size' layout = pixel_to_hex point size' ''flat''
     \<and> hex_corner_offset math_cos math_sin corner size' layout
          = hex_corner_offset math_cos math_sin corner size' ''flat''"
proof (intro conjI)
  note t = offset_tag [OF assms(1)]
  show "offset_distance a b offset_type = Inl ValueError"
    by (simp add: offset_distance_def t bind_def)
  show "offset_neighbor h direction offset_type = Inl ValueError"
    by (simp add: offset_neighbor_def t bind_def)
  show "offset_ring c radius offset_type = Inl ValueError"
    by (simp add: offset_ring_def t)
  show "offset_spiral c radius offset_type = Inl ValueError"
    by (simp add: offset_spiral_def t)
  show "offset_line a b offset_type = Inl ValueError"
    by (simp add: offset_line_def t)
  show "offset_visible c radius obstacles offset_type = Inl ValueError"
    by (simp add: offset_visible_def t)
  show "offset_path a b obstacles offset_type = Some (Inl ValueError)"
    by (simp add: offset_path_def t)
  show "\<exists>hexes. generate_rectangular_map width height offset_type = Inr hexes"
    by (simp add: generate_rectangular_map_def)
  show "generate_rectangular_map width height offset_type
          = generate_rectangular_map width height ''odd-r''"
    by (simp add: generate_rectangular_map_def)
  show "hex_to_pixel hex size' layout = hex_to_pixel hex size' ''flat''"
    using assms(2) by (simp add: hex_to_pixel_def)
  show "pixel_to_hex point size' layout = pixel_to_hex point size' ''flat''"
    using assms(2) by (simp add: pixel_to_hex_def)
  show "hex_corner_offset math_cos math_sin corner size' layout
          = hex_corner_offset math_cos math_sin corner size' ''flat''"
    using assms(2) by (simp add: hex_corner_offset_def)
qed

lemma layout_flat_values:
  "float_quotient 3 2 = PyFloat (Finite (3 / 2))"
  "float_quotient math_sqrt_3 2 = PyFloat (Finite (7800463371553962 / 2 ^ 53))"
  by (simp_all add: float_quotient_def math_sqrt_3_def float_eval)

lemma layout_flat_values2:
  "float_quotient 2 3 = PyFloat (Finite (6004799503160661 / 2 ^ 53))"
  "float_quotient (- 1) 3 = PyFloat (Finite (- 6004799503160661 / 2 ^ 54))"
  "float_quotient math_sqrt_3 3 = PyFloat (Finite (1300077228592327 / 2 ^ 51))"
  by (simp_all add: float_quotient_def math_sqrt_3_def float_eval)

lemma rectangular_map_example: "generate_rectangular_map 2 1 ''bogus'' = Inr {(0, 0), (1, 0)}"
  by (simp add: generate_rectangular_map_def upto.simps insert_commute)

lemma hex_to_pixel_example:
  "hex_to_pixel (1, 0, - 1) (PyFloat (Finite 1)) ''bogus''
     = Inr (PyFloat (Finite (3 / 2)), PyFloat (Finite (7800463371553962 / 2 ^ 53)))"
  unfolding hex_to_pixel_def LAYOUT_FLAT_def layout_flat_values layout_flat_values2
  by (simp add: math_sqrt_3_def float_eval)

lemma floor_rat_minus_one: "\<lfloor>- 1 :: rat\<rfloor> = - 1"
  using floor_of_int [of "- 1", where ?'a = rat] by simp

lemma pixel_to_hex_example:
  "pixel_to_hex (PyFloat (Finite (3 / 2)), PyFloat (Finite (7800463371553962 / 2 ^ 53)))
     (PyFloat (Finite 1)) ''bogus'' = Inr (1, 0, - 1)"
  unfolding pixel_to_hex_def LAYOUT_FLAT_def layout_flat_values layout_flat_values2
  by (simp add: math_sqrt_3_def float_eval floor_rat_minus_one)

text \<open>
  C3 fails as stated: with the tag \<^verbatim>\<open>'bogus'\<close>, recognised neither as a scheme nor as a
  layout, \<^verbatim>\<open>generate_rectangular_map\<close> returns the rectangle, \<^verbatim>\<open>hex_to_pixel\<close> returns the
  flat-layout centre of the hex and \<^verbatim>\<open>pixel_to_hex\<close> returns the hex of the flat layout.
\<close>

theorem unrecognised_tag_counterexample:
  "''bogus'' \<notin> offset_types \<and> ''bogus'' \<notin> {''pointy'', ''flat''}
   \<and> generate_rectangular_map 2 1 ''bogus'' = Inr {(0, 0), (1, 0)}
   \<and> hex_to_pixel (1, 0, - 1) (PyFloat (Finite 1)) ''bogus''
        = Inr (PyFloat (Finite (3 / 2)), PyFloat (Finite (7800463371553962 / 2 ^ 53)))
   \<and> pixel_to_hex (PyFloat (Finite (3 / 2)), PyFloat (Finite (7800463371553962 / 2 ^ 53)))
        (PyFloat (Finite 1)) ''bogus'' = Inr (1, 0, - 1)"
  unfolding rectangular_map_example hex_to_pixel_example pixel_to_hex_example
  by (simp add: offset_types_def)

theorem unrecognised_tag_witness:
  "''bogus'' \<notin> offset_types \<and> ''bogus'' \<noteq> ''pointy''
   \<and> offset_distance (0, 0) (1, 1) ''bogus'' = Inl ValueError
   \<and> offset_neighbor (0, 0) 0 ''bogus'' = Inl ValueError
   \<and> offset_ring (0, 0) 1 ''bogus'' = Inl ValueError
   \<and> offset_spiral (0, 0) 1 ''bogus'' = Inl ValueError
   \<and> offset_line (0, 0) (1, 1) ''bogus'' = Inl ValueError
   \<and> offset_visible (0, 0) 1 {} ''bogus'' = Inl ValueError
   \<and> offset_path (0, 0) (1, 1) {} ''bogus'' = Some (Inl ValueError)
   \<and> generate_rectangular_map 2 1 ''bogus'' = generate_rectangular_map 2 1 ''odd-r''
   \<and> hex_to_pixel (1, 0, - 1) (PyFloat (Finite 1)) ''bogus''
        = hex_to_pixel (1, 0, - 1) (PyFloat (Finite 1)) ''flat''
   \<and> pixel_to_hex (PyFloat (Finite (3 / 2)), PyFloat (Finite 0)) (PyFloat (Finite 1)) ''bogus''
        = pixel_to_hex (PyFloat (Finite (3 / 2)), PyFloat (Finite 0)) (PyFloat (Finite 1)) ''flat''
   \<and> hex_corner_offset (\<lambda>x. Inr (Finite 1)) (\<lambda>x. Inr (Finite 0)) 0 (PyFloat (Finite 1)) ''bogus''
        = hex_corner_offset (\<lambda>x. Inr (Finite 1)) (\<lambda>x. Inr (Finite 0)) 0 (PyFloat (Finite 1)) ''flat''"
proof -
  have t: "''bogus'' \<notin> offset_types" "''bogus'' \<noteq> ''pointy''"
    by (simp_all add: offset_types_def)
  from unrecognised_tag [OF t, of "(0, 0)" "(1, 1)" "(0, 0)" 0 "(0, 0)" 1 "{}" 2 1
      "(1, 0, - 1)" "PyFloat (Finite 1)" "(PyFloat (Finite (3 / 2)), PyFloat (Finite 0))"
      "\<lambda>x. Inr (Finite 1)" "\<lambda>x. Inr (Finite 0)" 0] t
  show ?thesis by (intro conjI) (rule t | elim conjE, assumption)+
qed

end
